theory Spec2Isabelle
  imports Complex_Main "HOL-Library.AList" "HOL-Library.Sublist"
begin

section \<open>Python values\<close>

text \<open>
  Rule conditions and symptom facts are JSON scalars held in Python dicts.  The values the
  engine compares are \<open>None\<close>, booleans, integers and strings.  Floating-point and
  container values do not occur as condition or fact values and are outside this type.
  A string is the list of the UTF-8 bytes of the Python \<open>str\<close>: equality, concatenation,
  substring containment and the replacement of one ASCII character are the same on both.

  \<open>str.lower()\<close> depends on the Unicode case tables, which are not part of the repository.
  Every function of the model that lowers a string takes the lowering function as its
  first argument \<open>lower\<close>, and every general theorem holds for any such function, so for
  the one Python uses.  \<open>ascii_lower\<close> is what \<open>str.lower()\<close> does on a string of ASCII
  characters; the examples, whose strings are ASCII, are evaluated with it.
\<close>

datatype pyval = PNone | PBool bool | PInt int | PStr string

datatype py_error = KeyError string

text \<open>\<open>isinstance(v, bool)\<close>; \<open>isinstance(v, str)\<close> is the pattern \<open>PStr\<close>.\<close>

fun is_bool :: "pyval \<Rightarrow> bool" where
  "is_bool (PBool _) = True"
| "is_bool _ = False"

text \<open>Python's \<open>==\<close>: \<open>bool\<close> is a subclass of \<open>int\<close>, so \<open>True == 1\<close> and \<open>False == 0\<close>;
  values of unrelated types are unequal.\<close>

fun py_eq :: "pyval \<Rightarrow> pyval \<Rightarrow> bool" where
  "py_eq PNone PNone = True"
| "py_eq (PBool a) (PBool b) = (a = b)"
| "py_eq (PBool a) (PInt i) = ((if a then 1 else 0) = i)"
| "py_eq (PInt i) (PBool b) = (i = (if b then 1 else 0))"
| "py_eq (PInt i) (PInt j) = (i = j)"
| "py_eq (PStr s) (PStr t) = (s = t)"
| "py_eq _ _ = False"

definition ascii_lower_char :: "char \<Rightarrow> char" where
  "ascii_lower_char c =
     (let n = (of_char c :: nat)
      in if 65 \<le> n \<and> n \<le> 90 then char_of (n + 32) else c)"

definition ascii_lower :: "string \<Rightarrow> string" where
  "ascii_lower s = map ascii_lower_char s"

definition digit_char :: "nat \<Rightarrow> char" where
  "digit_char d = char_of (48 + d)"

function string_of_nat :: "nat \<Rightarrow> string" where
  "string_of_nat n =
     (if n < 10 then [digit_char n] else string_of_nat (n div 10) @ [digit_char (n mod 10)])"
  by pat_completeness auto
termination
  by (relation "measure (\<lambda>n. n)") auto

text \<open>\<open>str(v)\<close>, which is also what an f-string field \<open>{v}\<close> renders.\<close>

fun py_str :: "pyval \<Rightarrow> string" where
  "py_str PNone = ''None''"
| "py_str (PBool b) = (if b then ''True'' else ''False'')"
| "py_str (PInt i) = (if i < 0 then CHR ''-'' # string_of_nat (nat (- i)) else string_of_nat (nat i))"
| "py_str (PStr s) = s"

text \<open>\<open>s.replace('_', ' ')\<close>.\<close>

definition replace_underscore :: "string \<Rightarrow> string" where
  "replace_underscore s = map (\<lambda>c. if c = CHR ''_'' then CHR '' '' else c) s"

text \<open>\<open>sep.join(xs)\<close>.\<close>

fun join :: "string \<Rightarrow> string list \<Rightarrow> string" where
  "join sep [] = []"
| "join sep [x] = x"
| "join sep (x # y # ys) = x @ sep @ join sep (y # ys)"

section \<open>Floating-point numbers\<close>

text \<open>
  Scores, confidences and thresholds are numbers of the rule files and of the code,
  held here as rationals.  Python computes on them as IEEE 754 doubles.  \<open>round_double\<close>
  is the rounding of a real number to the nearest double, ties to the even significand
  (53 bits, subnormals below \<open>2^(-1022)\<close>); it is how a decimal literal is read, how an
  \<open>int\<close> is converted and how the exact result of an operation is stored.  Numbers of
  magnitude \<open>2^1024\<close> or more have no double and are outside the model.
\<close>

text \<open>\<open>int.bit_length()\<close>.\<close>

function bit_length :: "int \<Rightarrow> nat" where
  "bit_length n = (if n \<le> 0 then 0 else Suc (bit_length (n div 2)))"
  by pat_completeness auto
termination
  by (relation "measure nat") auto

text \<open>The power of two with an integer exponent.\<close>

definition pow2 :: "int \<Rightarrow> rat" where
  "pow2 e = (if 0 \<le> e then 2 ^ nat e else 1 / 2 ^ nat (- e))"

text \<open>For a positive \<open>x = p/q\<close>, the exponent \<open>e\<close> with \<open>2^e \<le> x < 2^(e+1)\<close>: the difference of
  the bit lengths of \<open>p\<close> and \<open>q\<close>, or one less.\<close>

definition binary_exponent :: "rat \<Rightarrow> int" where
  "binary_exponent x =
     (case quotient_of x of
        (p, q) \<Rightarrow>
          (let d = int (bit_length p) - int (bit_length q)
           in if x < pow2 d then d - 1 else d))"

text \<open>Rounding to the nearest integer, a tie going to the even one.\<close>

definition round_half_even :: "rat \<Rightarrow> int" where
  "round_half_even x =
     (let f = \<lfloor>x\<rfloor>; d = x - of_int f
      in if d < 1 / 2 then f
         else if 1 / 2 < d then f + 1
         else if even f then f else f + 1)"

text \<open>The nearest double: the significand is rounded at the 53rd bit, or at the fixed
  quantum \<open>2^(-1074)\<close> in the subnormal range.\<close>

definition round_double :: "rat \<Rightarrow> rat" where
  "round_double x =
     (if x = 0 then 0
      else (let e = max (binary_exponent \<bar>x\<bar>) (- 1022);
                quantum = pow2 (e - 52)
            in of_int (round_half_even (x / quantum)) * quantum))"

text \<open>\<open>a * b\<close> on floats: both operands as doubles, the exact product rounded.\<close>

definition float_mul :: "rat \<Rightarrow> rat \<Rightarrow> rat" where
  "float_mul a b = round_double (round_double a * round_double b)"

section \<open>Rules and the knowledge base\<close>

text \<open>
  A rule is a JSON object.  The code reads every key except \<open>id\<close> through \<open>dict.get\<close>
  with a default, so each field is optional; \<open>rule['id']\<close> raises \<open>KeyError\<close> when absent.
  A dict iterates in insertion order, so \<open>conditions\<close> is an association list.

  \<open>r_confidence\<close> is the number written in the rule file.  The match score is kept as the
  exact quotient; the float the code holds is \<open>round_double\<close> of it.  Rounding is monotone,
  so the comparison of a score with the admission threshold and the comparisons of the
  sort are taken on the exact numbers: they differ from the comparison of the doubles
  only where two different numbers round to the same double.  The product of score and
  confidence and its comparison with the threshold are computed on the doubles.
\<close>

record rule =
  r_id :: "string option"
  r_category :: "string option"
  r_conditions :: "(string \<times> pyval) list option"
  r_cause :: "string option"
  r_cause_ar :: "string option"
  r_solutions :: "string list option"
  r_solutions_ar :: "string list option"
  r_confidence :: "rat option"

record knowledge_base =
  computer_rules :: "rule list"
  mobile_rules :: "rule list"
  all_rules :: "rule list"

text \<open>\<open>rule.get("conditions", {})\<close>.\<close>

definition get_conditions :: "rule \<Rightarrow> (string \<times> pyval) list" where
  "get_conditions rule = (case r_conditions rule of None \<Rightarrow> [] | Some c \<Rightarrow> c)"

subsection \<open>\<open>KnowledgeBase.match_conditions\<close>\<close>

text \<open>The \<open>if isinstance(expected_value, bool) / elif isinstance(expected_value, str) / else\<close>
  chain that decides whether a key present in the symptoms is matched.\<close>

definition condition_matches ::
  "(string \<Rightarrow> string) \<Rightarrow> pyval \<Rightarrow> pyval \<Rightarrow> bool" where
  "condition_matches lower expected_value user_value =
     (if is_bool expected_value then py_eq user_value expected_value
      else (case expected_value of
              PStr e \<Rightarrow> lower (py_str user_value) = lower e
            | _ \<Rightarrow> py_eq user_value expected_value))"

text \<open>The loop over \<open>conditions.items()\<close>, with the two lists it appends to.\<close>

fun match_loop ::
  "(string \<Rightarrow> string) \<Rightarrow> (string \<times> pyval) list \<Rightarrow> (string \<rightharpoonup> pyval) \<Rightarrow> string list \<Rightarrow> string list
     \<Rightarrow> string list \<times> string list" where
  "match_loop lower [] user_symptoms matched unmatched = (matched, unmatched)"
| "match_loop lower ((key, expected_value) # cs) user_symptoms matched unmatched =
     (case user_symptoms key of
        Some user_value \<Rightarrow>
          if condition_matches lower expected_value user_value
          then match_loop lower cs user_symptoms (matched @ [key]) unmatched
          else match_loop lower cs user_symptoms matched (unmatched @ [key])
      | None \<Rightarrow> match_loop lower cs user_symptoms matched (unmatched @ [key]))"

definition match_conditions ::
  "(string \<Rightarrow> string) \<Rightarrow> rule \<Rightarrow> (string \<rightharpoonup> pyval) \<Rightarrow> rat \<times> string list \<times> string list" where
  "match_conditions lower rule user_symptoms =
     (let conditions = get_conditions rule;
          (matched, unmatched) = match_loop lower conditions user_symptoms [] [];
          total_conditions = length conditions;
          match_score = (if total_conditions = 0 then 0
                         else of_nat (length matched) / of_nat total_conditions)
      in (match_score, matched, unmatched))"

definition score_of ::
  "(string \<Rightarrow> string) \<Rightarrow> rule \<Rightarrow> (string \<rightharpoonup> pyval) \<Rightarrow> rat" where
  "score_of lower rule user_symptoms = fst (match_conditions lower rule user_symptoms)"

definition matched_of ::
  "(string \<Rightarrow> string) \<Rightarrow> rule \<Rightarrow> (string \<rightharpoonup> pyval) \<Rightarrow> string list" where
  "matched_of lower rule user_symptoms = fst (snd (match_conditions lower rule user_symptoms))"

definition unmatched_of ::
  "(string \<Rightarrow> string) \<Rightarrow> rule \<Rightarrow> (string \<rightharpoonup> pyval) \<Rightarrow> string list" where
  "unmatched_of lower rule user_symptoms = snd (snd (match_conditions lower rule user_symptoms))"

subsection \<open>Rule store queries\<close>

definition get_rules_by_device ::
  "(string \<Rightarrow> string) \<Rightarrow> knowledge_base \<Rightarrow> string \<Rightarrow> rule list" where
  "get_rules_by_device lower kb device_type =
     (if lower device_type = ''computer'' then computer_rules kb
      else if lower device_type = ''mobile'' then mobile_rules kb
      else all_rules kb)"

definition get_rules_by_category ::
  "(string \<Rightarrow> string) \<Rightarrow> knowledge_base \<Rightarrow> string \<Rightarrow> string option \<Rightarrow> rule list" where
  "get_rules_by_category lower kb category device_type =
     (let rules = (case device_type of
                     Some d \<Rightarrow> if d \<noteq> [] then get_rules_by_device lower kb d else all_rules kb
                   | None \<Rightarrow> all_rules kb)
      in filter (\<lambda>rule. r_category rule = Some category) rules)"

subsection \<open>\<open>KnowledgeBase.find_matching_rules\<close>\<close>

record match =
  m_rule :: rule
  m_match_score :: rat
  m_matched_conditions :: "string list"
  m_unmatched_conditions :: "string list"

text \<open>The pool of rules the ranker scores: by category (and device) if a category is
  given, else by device if a device is given, else the whole catalog.  An optional
  string argument is tested for truthiness: \<open>None\<close> and the empty string are falsy.\<close>

definition candidate_rules ::
  "(string \<Rightarrow> string) \<Rightarrow> knowledge_base \<Rightarrow> string option \<Rightarrow> string option \<Rightarrow> rule list" where
  "candidate_rules lower kb device_type category =
     (case category of
        Some c \<Rightarrow>
          if c \<noteq> [] then get_rules_by_category lower kb c device_type
          else (case device_type of
                  Some d \<Rightarrow> if d \<noteq> [] then get_rules_by_device lower kb d else all_rules kb
                | None \<Rightarrow> all_rules kb)
      | None \<Rightarrow>
          (case device_type of
             Some d \<Rightarrow> if d \<noteq> [] then get_rules_by_device lower kb d else all_rules kb
           | None \<Rightarrow> all_rules kb))"

text \<open>The loop that scores each rule and keeps those at or above the threshold.\<close>

fun collect_matches ::
  "(string \<Rightarrow> string) \<Rightarrow> rule list \<Rightarrow> (string \<rightharpoonup> pyval) \<Rightarrow> rat \<Rightarrow> match list" where
  "collect_matches lower [] user_symptoms min_match_score = []"
| "collect_matches lower (rule # rules) user_symptoms min_match_score =
     (case match_conditions lower rule user_symptoms of
        (match_score, matched, unmatched) \<Rightarrow>
          if match_score \<ge> min_match_score
          then \<lparr> m_rule = rule, m_match_score = match_score,
                 m_matched_conditions = matched, m_unmatched_conditions = unmatched \<rparr>
               # collect_matches lower rules user_symptoms min_match_score
          else collect_matches lower rules user_symptoms min_match_score)"

text \<open>The sort key \<open>(x["match_score"], x["rule"].get("confidence", 0))\<close> and Python's
  lexicographic order on tuples.\<close>

definition rank_key :: "match \<Rightarrow> rat \<times> rat" where
  "rank_key x = (m_match_score x, (case r_confidence (m_rule x) of None \<Rightarrow> 0 | Some c \<Rightarrow> c))"

definition key_less :: "rat \<times> rat \<Rightarrow> rat \<times> rat \<Rightarrow> bool" where
  "key_less a b = (fst a < fst b \<or> (fst a = fst b \<and> snd a < snd b))"

text \<open>
  \<open>list.sort(key=..., reverse=True)\<close> is stable: entries with equal keys keep their
  original relative order, also under \<open>reverse=True\<close>.  A stable sort has one result, so
  the insertion sort below returns the list Python's sort returns.
\<close>

fun insert_desc :: "match \<Rightarrow> match list \<Rightarrow> match list" where
  "insert_desc x [] = [x]"
| "insert_desc x (y # ys) =
     (if key_less (rank_key x) (rank_key y) then y # insert_desc x ys else x # y # ys)"

fun sort_desc :: "match list \<Rightarrow> match list" where
  "sort_desc [] = []"
| "sort_desc (x # xs) = insert_desc x (sort_desc xs)"

definition find_matching_rules ::
  "(string \<Rightarrow> string) \<Rightarrow> knowledge_base \<Rightarrow> (string \<rightharpoonup> pyval) \<Rightarrow> string option \<Rightarrow> string option \<Rightarrow> rat
     \<Rightarrow> match list" where
  "find_matching_rules lower kb user_symptoms device_type category min_match_score =
     sort_desc (collect_matches lower (candidate_rules lower kb device_type category)
                  user_symptoms min_match_score)"

subsection \<open>\<open>KnowledgeBase._load_rules\<close>\<close>

text \<open>
  A rule file is a parsed JSON object whose \<open>rules\<close> key, read with
  \<open>data.get("rules", [])\<close>, may be absent; a file that does not exist is \<open>None\<close>.  The
  result is a sum so that a failing load would be an \<open>Inl\<close>.
\<close>

record rules_file =
  f_rules :: "rule list option"

definition file_rules :: "rules_file option \<Rightarrow> rule list" where
  "file_rules file =
     (case file of
        None \<Rightarrow> []
      | Some data \<Rightarrow> (case f_rules data of None \<Rightarrow> [] | Some rs \<Rightarrow> rs))"

definition load_rules ::
  "rules_file option \<Rightarrow> rules_file option \<Rightarrow> py_error + knowledge_base" where
  "load_rules computer_file mobile_file =
     (let computer = file_rules computer_file;
          mobile = file_rules mobile_file
      in Inr \<lparr> computer_rules = computer, mobile_rules = mobile,
               all_rules = computer @ mobile \<rparr>)"

section \<open>The inference engine\<close>

text \<open>
  Each entry of the inference trace is one f-string of the source; the constructor holds
  the values the f-string interpolates.
\<close>

datatype trace_entry =
    Added_fact string pyval
  | Starting_forward_chaining
  | Fired_rule string rat
  | Forward_chaining_complete nat
  | Starting_backward_chaining string
  | No_rules_found string
  | Hypothesis_proven string
  | Rule_needs string string

record engine =
  kb :: knowledge_base
  working_memory :: "(string \<times> pyval) list"
  inference_trace :: "trace_entry list"
  fired_rules :: "rule list"

definition reset :: "engine \<Rightarrow> engine" where
  "reset e = e\<lparr> working_memory := [], inference_trace := [], fired_rules := [] \<rparr>"

text \<open>\<open>working_memory[key] = value\<close> replaces the value of a present key in place and
  appends a new key, which is \<open>AList.update\<close>.\<close>

definition add_fact :: "engine \<Rightarrow> string \<Rightarrow> pyval \<Rightarrow> engine" where
  "add_fact e key v =
     e\<lparr> working_memory := AList.update key v (working_memory e),
        inference_trace := inference_trace e @ [Added_fact key v] \<rparr>"

fun add_facts :: "engine \<Rightarrow> (string \<times> pyval) list \<Rightarrow> engine" where
  "add_facts e [] = e"
| "add_facts e ((key, v) # facts) = add_facts (add_fact e key v) facts"

subsection \<open>\<open>InferenceEngine._generate_explanation\<close>\<close>

definition generate_explanation ::
  "(string \<times> pyval) list \<Rightarrow> rule \<Rightarrow> string list \<Rightarrow> string" where
  "generate_explanation wm rule matched_conditions =
     (let conditions_text =
            map (\<lambda>cond. replace_underscore cond @ '' = '' @
                   py_str (case map_of wm cond of None \<Rightarrow> PStr ''unknown'' | Some v \<Rightarrow> v))
                matched_conditions
      in if conditions_text \<noteq> []
         then ''The system concluded '' @ [CHR 0x27]
              @ (case r_cause rule of None \<Rightarrow> ''this issue'' | Some c \<Rightarrow> c)
              @ [CHR 0x27] @ '' because the following conditions were met: ''
              @ join '', '' conditions_text @ ''.''
         else ''The system identified a potential issue: ''
              @ (case r_cause rule of None \<Rightarrow> ''unknown'' | Some c \<Rightarrow> c) @ ''.'')"

subsection \<open>\<open>InferenceEngine.forward_chain\<close>\<close>

record diagnosis =
  d_rule_id :: string
  d_category :: string
  d_cause :: string
  d_cause_ar :: string
  d_solutions :: "string list"
  d_solutions_ar :: "string list"
  d_confidence :: rat
  d_matched_conditions :: "string list"
  d_explanation :: string

text \<open>\<open>rule.get("confidence", 0.8)\<close> and the float product \<open>match_score * rule_confidence\<close>.\<close>

definition rule_confidence :: "rule \<Rightarrow> rat" where
  "rule_confidence rule = (case r_confidence rule of None \<Rightarrow> 8 / 10 | Some c \<Rightarrow> c)"

definition final_confidence :: "match \<Rightarrow> rat" where
  "final_confidence m = float_mul (m_match_score m) (rule_confidence (m_rule m))"

text \<open>The diagnosis dict built for a fired rule whose id is \<open>i\<close>.\<close>

definition make_diagnosis :: "(string \<times> pyval) list \<Rightarrow> match \<Rightarrow> string \<Rightarrow> diagnosis" where
  "make_diagnosis wm m i =
     (let rule = m_rule m;
          cause = (case r_cause rule of None \<Rightarrow> ''Unknown cause'' | Some c \<Rightarrow> c);
          sols = (case r_solutions rule of None \<Rightarrow> [] | Some s \<Rightarrow> s)
      in \<lparr> d_rule_id = i,
           d_category = (case r_category rule of None \<Rightarrow> ''unknown'' | Some c \<Rightarrow> c),
           d_cause = cause,
           d_cause_ar = (case r_cause_ar rule of None \<Rightarrow> cause | Some c \<Rightarrow> c),
           d_solutions = sols,
           d_solutions_ar = (case r_solutions_ar rule of None \<Rightarrow> sols | Some s \<Rightarrow> s),
           d_confidence = final_confidence m,
           d_matched_conditions = m_matched_conditions m,
           d_explanation = generate_explanation wm rule (m_matched_conditions m) \<rparr>)"

text \<open>
  The loop over the ranked matches; \<open>final_confidence >= min_confidence\<close> compares two
  doubles.  A rule that clears the threshold is appended to
  \<open>fired_rules\<close> first; the trace line then reads \<open>rule['id']\<close>, which raises
  \<open>KeyError\<close> for a rule without an id, leaving the engine as it is at that point.
\<close>

fun fire_loop ::
  "match list \<Rightarrow> rat \<Rightarrow> engine \<Rightarrow> diagnosis list \<Rightarrow> (py_error + diagnosis list) \<times> engine" where
  "fire_loop [] min_confidence e diagnoses = (Inr diagnoses, e)"
| "fire_loop (m # ms) min_confidence e diagnoses =
     (if final_confidence m \<ge> round_double min_confidence
      then (let e1 = e\<lparr> fired_rules := fired_rules e @ [m_rule m] \<rparr>
            in case r_id (m_rule m) of
                 None \<Rightarrow> (Inl (KeyError ''id''), e1)
               | Some i \<Rightarrow>
                   fire_loop ms min_confidence
                     (e1\<lparr> inference_trace :=
                            inference_trace e1 @ [Fired_rule i (final_confidence m)] \<rparr>)
                     (diagnoses @ [make_diagnosis (working_memory e) m i]))
      else fire_loop ms min_confidence e diagnoses)"

definition forward_chain ::
  "(string \<Rightarrow> string) \<Rightarrow> engine \<Rightarrow> string option \<Rightarrow> string option \<Rightarrow> rat \<Rightarrow> (py_error + diagnosis list) \<times> engine" where
  "forward_chain lower e device_type category min_confidence =
     (let e1 = e\<lparr> inference_trace := inference_trace e @ [Starting_forward_chaining] \<rparr>;
          matches = find_matching_rules lower (kb e1) (map_of (working_memory e1))
                      device_type category min_confidence
      in case fire_loop matches min_confidence e1 [] of
           (Inl err, e2) \<Rightarrow> (Inl err, e2)
         | (Inr diagnoses, e2) \<Rightarrow>
             (Inr diagnoses,
              e2\<lparr> inference_trace :=
                    inference_trace e2 @ [Forward_chaining_complete (length diagnoses)] \<rparr>))"

subsection \<open>\<open>InferenceEngine._values_match\<close> and \<open>backward_chain\<close>\<close>

definition values_match ::
  "(string \<Rightarrow> string) \<Rightarrow> pyval \<Rightarrow> pyval \<Rightarrow> bool" where
  "values_match lower actual expected =
     (case expected of
        PBool b \<Rightarrow>
          (case actual of
             PStr a \<Rightarrow> (if b then lower a \<in> set [''yes'', ''true'', ''1'']
                        else lower a \<in> set [''no'', ''false'', ''0''])
           | _ \<Rightarrow> py_eq actual expected)
      | PStr e \<Rightarrow> lower (py_str actual) = lower e
      | _ \<Rightarrow> py_eq actual expected)"

text \<open>The inner loop over one rule's conditions, with \<open>required_facts\<close> and
  \<open>all_satisfied\<close> as it updates them.\<close>

fun check_conditions ::
  "(string \<Rightarrow> string) \<Rightarrow> (string \<times> pyval) list \<Rightarrow> (string \<rightharpoonup> pyval) \<Rightarrow> string list \<Rightarrow> bool
     \<Rightarrow> string list \<times> bool" where
  "check_conditions lower [] wm required_facts all_satisfied = (required_facts, all_satisfied)"
| "check_conditions lower ((key, expected_value) # cs) wm required_facts all_satisfied =
     (case wm key of
        Some actual_value \<Rightarrow>
          if \<not> values_match lower actual_value expected_value
          then check_conditions lower cs wm
                 (required_facts @ [key @ '' should be '' @ py_str expected_value]) False
          else check_conditions lower cs wm required_facts all_satisfied
      | None \<Rightarrow>
          check_conditions lower cs wm (required_facts @ [''Need to know: '' @ key]) False)"

text \<open>
  The outer loop over the supporting rules.  The third argument is the value the
  variable \<open>required_facts\<close> holds from the previous iteration, returned after the loop.
  Both trace lines read \<open>rule['id']\<close>.
\<close>

fun prove_loop ::
  "(string \<Rightarrow> string) \<Rightarrow> rule list \<Rightarrow> engine \<Rightarrow> string list \<Rightarrow> (py_error + bool \<times> string list) \<times> engine" where
  "prove_loop lower [] e required_facts = (Inr (False, required_facts), e)"
| "prove_loop lower (rule # rules) e previous =
     (case check_conditions lower (get_conditions rule) (map_of (working_memory e)) [] True of
        (required_facts, all_satisfied) \<Rightarrow>
          (case r_id rule of
             None \<Rightarrow> (Inl (KeyError ''id''), e)
           | Some i \<Rightarrow>
               if all_satisfied
               then (Inr (True, []),
                     e\<lparr> inference_trace := inference_trace e @ [Hypothesis_proven i] \<rparr>)
               else prove_loop lower rules
                      (e\<lparr> inference_trace :=
                           inference_trace e @ [Rule_needs i (join '', '' required_facts)] \<rparr>)
                      required_facts))"

text \<open>\<open>hypothesis.lower() in r.get("cause", "").lower()\<close>: substring containment.\<close>

definition supports ::
  "(string \<Rightarrow> string) \<Rightarrow> string \<Rightarrow> rule \<Rightarrow> bool" where
  "supports lower hypothesis r =
     sublist (lower hypothesis) (lower (case r_cause r of None \<Rightarrow> [] | Some c \<Rightarrow> c))"

definition supporting_rules ::
  "(string \<Rightarrow> string) \<Rightarrow> knowledge_base \<Rightarrow> string \<Rightarrow> string option \<Rightarrow> rule list" where
  "supporting_rules lower store hypothesis device_type =
     (let rules = (case device_type of
                     Some d \<Rightarrow> if d \<noteq> [] then get_rules_by_device lower store d else all_rules store
                   | None \<Rightarrow> all_rules store)
      in filter (supports lower hypothesis) rules)"

definition backward_chain ::
  "(string \<Rightarrow> string) \<Rightarrow> engine \<Rightarrow> string \<Rightarrow> string option \<Rightarrow> (py_error + bool \<times> string list) \<times> engine" where
  "backward_chain lower e hypothesis device_type =
     (let e1 = e\<lparr> inference_trace :=
                   inference_trace e @ [Starting_backward_chaining hypothesis] \<rparr>;
          supporting = supporting_rules lower (kb e1) hypothesis device_type
      in if supporting = []
         then (Inr (False, []),
               e1\<lparr> inference_trace := inference_trace e1 @ [No_rules_found hypothesis] \<rparr>)
         else prove_loop lower supporting e1 [])"

subsection \<open>\<open>InferenceEngine.diagnose\<close>\<close>

definition get_general_solutions :: "string \<Rightarrow> string \<Rightarrow> string list" where
  "get_general_solutions category device_type =
     (case map_of
        [(''overheating'',
            [''Ensure proper ventilation around the device'',
             ''Clean dust from vents and fans'',
             ''Avoid using in direct sunlight or hot environments'',
             ''Consider replacing thermal paste (for computers)'']),
         (''slow_performance'',
            [''Close unused applications'',
             ''Restart the device'',
             ''Check for available updates'',
             ''Free up storage space'',
             ''Scan for malware'']),
         (''battery_issues'',
            [''Check battery health in settings'',
             ''Reduce screen brightness'',
             ''Close background applications'',
             ''Use original charger'',
             ''Consider battery replacement if old'']),
         (''network_issues'',
            [''Toggle airplane mode on and off'',
             ''Restart the router/modem'',
             ''Forget and reconnect to network'',
             ''Update network drivers'',
             ''Check for service outages'']),
         (''startup_failure'',
            [''Perform a hard reset'',
             ''Check power connections'',
             ''Try booting in safe mode'',
             ''Check for recent hardware changes'']),
         (''screen_problems'',
            [''Restart the device'',
             ''Check display connections'',
             ''Adjust display settings'',
             ''Update display drivers'']),
         (''storage_issues'',
            [''Delete unnecessary files'',
             ''Clear app caches'',
             ''Move files to cloud storage'',
             ''Check for disk errors'']),
         (''audio_problems'',
            [''Check volume settings'',
             ''Ensure correct output device is selected'',
             ''Update audio drivers'',
             ''Test with different audio source'']),
         (''app_crashes'',
            [''Update the application'',
             ''Clear app cache and data'',
             ''Reinstall the application'',
             ''Check for system updates'']),
         (''hardware_failure'',
            [''Restart the device'',
             ''Check all connections'',
             ''Run hardware diagnostics'',
             ''Consult a professional technician''])]
        category of
        Some sols \<Rightarrow> sols
      | None \<Rightarrow> [''Restart the device and try again'', ''Consult technical support''])"

text \<open>The inner \<open>diagnosis\<close> dict of the result.  The fallback dict has no \<open>cause_ar\<close> and
  no \<open>solutions_ar\<close> key, and its \<open>rule_id\<close> is \<open>None\<close>.\<close>

record diagnosis_info =
  i_cause :: string
  i_cause_ar :: "string option"
  i_category :: string
  i_confidence :: rat
  i_solutions :: "string list"
  i_solutions_ar :: "string list option"
  i_explanation :: string
  i_rule_id :: "string option"

record diagnosis_result =
  success :: bool
  diagnosis :: diagnosis_info
  alternative_diagnoses :: "diagnosis list"
  result_trace :: "trace_entry list"

definition fallback_info :: "string \<Rightarrow> string \<Rightarrow> diagnosis_info" where
  "fallback_info category device_type =
     \<lparr> i_cause = ''General '' @ replace_underscore category @ '' issue'',
       i_cause_ar = None,
       i_category = category,
       i_confidence = 5 / 10,
       i_solutions = get_general_solutions category device_type,
       i_solutions_ar = None,
       i_explanation =
         ''Based on the symptoms provided, this appears to be a ''
         @ replace_underscore category
         @ '' problem. Consider the general troubleshooting steps recommended.'',
       i_rule_id = None \<rparr>"

definition best_info :: "diagnosis \<Rightarrow> diagnosis_info" where
  "best_info best =
     \<lparr> i_cause = d_cause best,
       i_cause_ar = Some (d_cause_ar best),
       i_category = d_category best,
       i_confidence = d_confidence best,
       i_solutions = d_solutions best,
       i_solutions_ar = Some (d_solutions_ar best),
       i_explanation = d_explanation best,
       i_rule_id = Some (d_rule_id best) \<rparr>"

definition diagnose ::
  "(string \<Rightarrow> string) \<Rightarrow> engine \<Rightarrow> string \<Rightarrow> string \<Rightarrow> (string \<times> pyval) list
     \<Rightarrow> (py_error + diagnosis_result) \<times> engine" where
  "diagnose lower e device_type category symptoms =
     (let e1 = add_facts (add_fact (reset e) ''device'' (PStr device_type)) symptoms
      in case forward_chain lower e1 (Some device_type) (Some category) (3 / 10) of
           (Inl err, e2) \<Rightarrow> (Inl err, e2)
         | (Inr diagnoses, e2) \<Rightarrow>
             (case diagnoses of
                best # others \<Rightarrow>
                  (Inr \<lparr> success = True, diagnosis = best_info best,
                         alternative_diagnoses = take 2 others,
                         result_trace = inference_trace e2 \<rparr>, e2)
              | [] \<Rightarrow>
                  (Inr \<lparr> success = False, diagnosis = fallback_info category device_type,
                         alternative_diagnoses = [],
                         result_trace = inference_trace e2 \<rparr>, e2)))"

section \<open>Auxiliary definitions\<close>

text \<open>Whether the loop puts a condition on the matched list.\<close>

definition key_matched ::
  "(string \<Rightarrow> string) \<Rightarrow> (string \<rightharpoonup> pyval) \<Rightarrow> string \<times> pyval \<Rightarrow> bool" where
  "key_matched lower user_symptoms c =
     (case user_symptoms (fst c) of
        Some user_value \<Rightarrow> condition_matches lower (snd c) user_value
      | None \<Rightarrow> False)"

text \<open>The engine \<open>diagnose\<close> runs forward chaining on: reset, then the device fact, then
  the caller's symptoms.\<close>

definition session_start :: "engine \<Rightarrow> string \<Rightarrow> (string \<times> pyval) list \<Rightarrow> engine" where
  "session_start e device_type symptoms =
     add_facts (add_fact (reset e) ''device'' (PStr device_type)) symptoms"

text \<open>Whether a ranked match clears the second, confidence-weighted threshold: the test
  \<open>final_confidence >= min_confidence\<close> on doubles.\<close>

definition fires :: "rat \<Rightarrow> match \<Rightarrow> bool" where
  "fires min_confidence m = (final_confidence m \<ge> round_double min_confidence)"

text \<open>The combined confidence forward chaining computes for a rule on given facts: the
  float product of its match score and its confidence (0.8 when it has none).\<close>

definition combined_confidence ::
  "(string \<Rightarrow> string) \<Rightarrow> rule \<Rightarrow> (string \<rightharpoonup> pyval) \<Rightarrow> rat" where
  "combined_confidence lower r user_symptoms =
     float_mul (score_of lower r user_symptoms) (rule_confidence r)"

text \<open>The match entry the ranker builds for a rule.\<close>

definition match_of ::
  "(string \<Rightarrow> string) \<Rightarrow> (string \<rightharpoonup> pyval) \<Rightarrow> rule \<Rightarrow> match" where
  "match_of lower user_symptoms rule =
     \<lparr> m_rule = rule, m_match_score = score_of lower rule user_symptoms,
       m_matched_conditions = matched_of lower rule user_symptoms,
       m_unmatched_conditions = unmatched_of lower rule user_symptoms \<rparr>"

text \<open>The order the ranker sorts by: higher score first, then higher confidence, a
  missing confidence counting as 0.\<close>

definition ranks_before :: "match \<Rightarrow> match \<Rightarrow> bool" where
  "ranks_before a b =
     (m_match_score a > m_match_score b
      \<or> (m_match_score a = m_match_score b \<and> snd (rank_key a) \<ge> snd (rank_key b)))"

text \<open>Whether every condition of a rule is satisfied by a known fact, and the list of
  what is missing, as the inner loop of \<open>backward_chain\<close> computes them.\<close>

definition condition_satisfied ::
  "(string \<Rightarrow> string) \<Rightarrow> (string \<rightharpoonup> pyval) \<Rightarrow> string \<times> pyval \<Rightarrow> bool" where
  "condition_satisfied lower wm c =
     (case wm (fst c) of Some actual \<Rightarrow> values_match lower actual (snd c) | None \<Rightarrow> False)"

definition all_satisfied ::
  "(string \<Rightarrow> string) \<Rightarrow> (string \<rightharpoonup> pyval) \<Rightarrow> rule \<Rightarrow> bool" where
  "all_satisfied lower wm r = list_all (condition_satisfied lower wm) (get_conditions r)"

definition missing_fact :: "(string \<rightharpoonup> pyval) \<Rightarrow> string \<times> pyval \<Rightarrow> string" where
  "missing_fact wm c =
     (case wm (fst c) of
        Some actual \<Rightarrow> fst c @ '' should be '' @ py_str (snd c)
      | None \<Rightarrow> ''Need to know: '' @ fst c)"

definition missing_facts ::
  "(string \<Rightarrow> string) \<Rightarrow> (string \<rightharpoonup> pyval) \<Rightarrow> rule \<Rightarrow> string list" where
  "missing_facts lower wm r =
     map (missing_fact wm) (filter (\<lambda>c. \<not> condition_satisfied lower wm c) (get_conditions r))"

text \<open>Helpers that name what the loops of the engine build for a rule or a match: the
  id read by \<open>rule['id']\<close>, the diagnosis and trace line of a fired match, and the trace
  line of an unsatisfied supporting rule.\<close>

definition rule_id_of :: "rule \<Rightarrow> string" where
  "rule_id_of r = (case r_id r of Some i \<Rightarrow> i | None \<Rightarrow> [])"

definition diagnosis_of :: "(string \<times> pyval) list \<Rightarrow> match \<Rightarrow> diagnosis" where
  "diagnosis_of wm m = make_diagnosis wm m (rule_id_of (m_rule m))"

definition fired_entry :: "match \<Rightarrow> trace_entry" where
  "fired_entry m = Fired_rule (rule_id_of (m_rule m)) (final_confidence m)"

definition needs_entry ::
  "(string \<Rightarrow> string) \<Rightarrow> (string \<rightharpoonup> pyval) \<Rightarrow> rule \<Rightarrow> trace_entry" where
  "needs_entry lower wm r = Rule_needs (rule_id_of r) (join '', '' (missing_facts lower wm r))"

section \<open>Example data\<close>

text \<open>The rule of the specification's first scenario, and variations of it.\<close>

definition heat_rule :: rule where
  "heat_rule =
     \<lparr> r_id = Some ''COMP_HEAT_001'', r_category = Some ''overheating'',
       r_conditions = Some [(''device'', PStr ''computer''), (''fan_noise'', PBool True),
                            (''hot_surface'', PBool True)],
       r_cause = Some ''Dust accumulation in cooling system'', r_cause_ar = None,
       r_solutions = Some [''Clean the fans'', ''Replace thermal paste''],
       r_solutions_ar = None, r_confidence = Some (9 / 10) \<rparr>"

definition heat_facts :: "(string \<times> pyval) list" where
  "heat_facts = [(''device'', PStr ''computer''), (''fan_noise'', PBool True)]"

definition yes_rule :: rule where
  "yes_rule =
     \<lparr> r_id = Some ''COMP_HEAT_002'', r_category = Some ''overheating'',
       r_conditions = Some [(''hot_surface'', PBool True)],
       r_cause = Some ''Blocked vents'', r_cause_ar = None,
       r_solutions = Some [''Clean the vents''], r_solutions_ar = None,
       r_confidence = Some (1 / 2) \<rparr>"

text \<open>A rule record with every field missing: the JSON object \<open>{}\<close>.\<close>

definition empty_rule :: rule where
  "empty_rule =
     \<lparr> r_id = None, r_category = None, r_conditions = None, r_cause = None,
       r_cause_ar = None, r_solutions = None, r_solutions_ar = None, r_confidence = None \<rparr>"

text \<open>Two rules with the same conditions and confidences 0.9 and 0.95, the lower one
  first in the catalog.\<close>

definition rule_a :: rule where
  "rule_a =
     \<lparr> r_id = Some ''A'', r_category = Some ''overheating'',
       r_conditions = Some [(''device'', PStr ''computer''), (''fan_noise'', PBool True)],
       r_cause = Some ''Fan bearing worn'', r_cause_ar = None,
       r_solutions = Some [''Replace the fan''], r_solutions_ar = None,
       r_confidence = Some (9 / 10) \<rparr>"

definition rule_b :: rule where
  "rule_b =
     \<lparr> r_id = Some ''B'', r_category = Some ''overheating'',
       r_conditions = Some [(''device'', PStr ''computer''), (''fan_noise'', PBool True)],
       r_cause = Some ''Dust on the fan'', r_cause_ar = None,
       r_solutions = Some [''Clean the fan''], r_solutions_ar = None,
       r_confidence = Some (95 / 100) \<rparr>"

definition tie_store :: knowledge_base where
  "tie_store = \<lparr> computer_rules = [rule_a, rule_b], mobile_rules = [],
                  all_rules = [rule_a, rule_b] \<rparr>"

definition heat_store :: knowledge_base where
  "heat_store = \<lparr> computer_rules = [heat_rule], mobile_rules = [], all_rules = [heat_rule] \<rparr>"

definition new_engine :: "knowledge_base \<Rightarrow> engine" where
  "new_engine store = \<lparr> kb = store, working_memory = [], inference_trace = [], fired_rules = [] \<rparr>"

definition edge_rule :: rule where
  "edge_rule =
     \<lparr> r_id = Some ''EDGE'', r_category = Some ''overheating'',
       r_conditions = Some [(''device'', PStr ''computer'')],
       r_cause = Some ''Ambient temperature too high'', r_cause_ar = None,
       r_solutions = Some [''Move the device to a cooler room''], r_solutions_ar = None,
       r_confidence = Some (3 / 10) \<rparr>"

definition edge_store :: knowledge_base where
  "edge_store = \<lparr> computer_rules = [edge_rule], mobile_rules = [], all_rules = [edge_rule] \<rparr>"

definition rule_c :: rule where
  "rule_c =
     \<lparr> r_id = Some ''C'', r_category = Some ''overheating'',
       r_conditions = Some [(''device'', PStr ''computer''), (''fan_noise'', PBool True)],
       r_cause = Some ''Fan curve misconfigured'', r_cause_ar = None,
       r_solutions = Some [''Reset the fan curve''], r_solutions_ar = None,
       r_confidence = None \<rparr>"

definition noconf_store :: knowledge_base where
  "noconf_store = \<lparr> computer_rules = [rule_c, rule_a], mobile_rules = [],
                     all_rules = [rule_c, rule_a] \<rparr>"

text \<open>A rule with \<open>n\<close> boolean conditions and a given confidence, the facts that match the
  first \<open>k\<close> of them, and the store that holds a single rule.\<close>

definition numbered_facts :: "nat \<Rightarrow> (string \<times> pyval) list" where
  "numbered_facts k = map (\<lambda>i. (''symptom_'' @ string_of_nat i, PBool True)) [0..<k]"

definition counting_rule :: "nat \<Rightarrow> rat option \<Rightarrow> rule" where
  "counting_rule n c =
     \<lparr> r_id = Some ''COUNT'', r_category = Some ''overheating'',
       r_conditions = Some (numbered_facts n),
       r_cause = Some ''Several symptoms at once'', r_cause_ar = None,
       r_solutions = Some [''Check each symptom''], r_solutions_ar = None,
       r_confidence = c \<rparr>"

definition single_store :: "rule \<Rightarrow> knowledge_base" where
  "single_store r = \<lparr> computer_rules = [r], mobile_rules = [], all_rules = [r] \<rparr>"

text \<open>A store of four overheating rules, three of which name dust in their cause, and
  two engines that know some facts, for backward chaining.\<close>

definition paste_rule :: rule where
  "paste_rule =
     \<lparr> r_id = Some ''COMP_HEAT_005'', r_category = Some ''overheating'',
       r_conditions = Some [(''device'', PStr ''computer''), (''thermal_paste_old'', PBool True)],
       r_cause = Some ''Thermal paste dried out'', r_cause_ar = None,
       r_solutions = Some [''Replace thermal paste''], r_solutions_ar = None,
       r_confidence = Some (85 / 100) \<rparr>"

definition fan_rule :: rule where
  "fan_rule =
     \<lparr> r_id = Some ''COMP_HEAT_003'', r_category = Some ''overheating'',
       r_conditions = Some [(''device'', PStr ''computer''), (''fan_noise'', PBool True)],
       r_cause = Some ''Heavy DUST on the fan blades'', r_cause_ar = None,
       r_solutions = Some [''Clean the fan blades''], r_solutions_ar = None,
       r_confidence = Some (8 / 10) \<rparr>"

definition filter_rule :: rule where
  "filter_rule =
     \<lparr> r_id = Some ''COMP_HEAT_004'', r_category = Some ''overheating'',
       r_conditions = Some [(''device'', PStr ''computer''), (''filter_dirty'', PBool True)],
       r_cause = Some ''Dust filter clogged'', r_cause_ar = None,
       r_solutions = Some [''Wash the dust filter''], r_solutions_ar = None,
       r_confidence = Some (75 / 100) \<rparr>"

definition chain_store :: knowledge_base where
  "chain_store =
     \<lparr> computer_rules = [heat_rule, paste_rule, fan_rule, filter_rule], mobile_rules = [],
       all_rules = [heat_rule, paste_rule, fan_rule, filter_rule] \<rparr>"

definition noisy_engine :: engine where
  "noisy_engine =
     add_facts (new_engine chain_store)
       [(''device'', PStr ''computer''), (''fan_noise'', PStr ''yes''),
        (''thermal_paste_old'', PBool True)]"

definition quiet_engine :: engine where
  "quiet_engine =
     add_facts (new_engine chain_store)
       [(''device'', PStr ''computer''), (''fan_noise'', PStr ''no'')]"

section \<open>Properties of the condition matcher\<close>

lemma match_loop_filter:
  "match_loop lower cs us m u =
     (m @ map fst (filter (key_matched lower us) cs),
      u @ map fst (filter (\<lambda>c. \<not> key_matched lower us c) cs))"
  by (induction cs arbitrary: m u)
     (auto simp: key_matched_def split: option.splits)

lemma matched_of_filter:
  "matched_of lower rule us = map fst (filter (key_matched lower us) (get_conditions rule))"
  by (simp add: matched_of_def match_conditions_def match_loop_filter Let_def)

lemma unmatched_of_filter:
  "unmatched_of lower rule us = map fst (filter (\<lambda>c. \<not> key_matched lower us c) (get_conditions rule))"
  by (simp add: unmatched_of_def match_conditions_def match_loop_filter Let_def)

lemma score_of_eq:
  "score_of lower rule us =
     (if length (get_conditions rule) = 0 then 0
      else of_nat (length (matched_of lower rule us)) / of_nat (length (get_conditions rule)))"
  by (simp add: score_of_def matched_of_def match_conditions_def match_loop_filter Let_def)

lemma length_matched_le:
  "length (matched_of lower rule us) \<le> length (get_conditions rule)"
  by (simp add: matched_of_filter)

lemma score_of_bounds: "0 \<le> score_of lower rule us \<and> score_of lower rule us \<le> 1"
proof (cases "length (get_conditions rule) = 0")
  case True
  then show ?thesis by (simp add: score_of_eq)
next
  case False
  have "(of_nat (length (matched_of lower rule us)) :: rat) \<le> of_nat (length (get_conditions rule))"
    using length_matched_le by (simp only: of_nat_le_iff)
  with False show ?thesis
    by (simp add: score_of_eq divide_le_eq_1)
qed

lemma partition_keys:
  assumes "distinct (map fst cs)"
  shows "set (map fst (filter P cs)) \<inter> set (map fst (filter (\<lambda>c. \<not> P c) cs)) = {}"
  using assms
proof (induction cs)
  case Nil
  then show ?case by simp
next
  case (Cons c cs)
  have "\<And>Q. set (map fst (filter Q cs)) \<subseteq> set (map fst cs)" by auto
  with Cons show ?case by (auto simp: image_iff)
qed

lemma partition_keys_union:
  "set (map fst (filter P cs)) \<union> set (map fst (filter (\<lambda>c. \<not> P c) cs)) = set (map fst cs)"
  by (induction cs) auto

text \<open>
  Claim C4.  For every rule and fact set, the score returned by \<open>match_conditions\<close> lies
  in [0, 1]; it is exactly (number of matched keys) / (number of conditions) when the
  rule has at least one condition and exactly 0 when the conditions mapping is empty;
  and every condition key occurs in exactly one of the matched and unmatched lists,
  never in both and never in neither.  The keys of a dict are distinct, which is the
  hypothesis on the association list.
\<close>

theorem match_conditions_score_and_partition:
  assumes "distinct (map fst (get_conditions R))"
  shows "0 \<le> score_of lower R F \<and> score_of lower R F \<le> 1
       \<and> (get_conditions R \<noteq> [] \<longrightarrow>
            score_of lower R F = of_nat (length (matched_of lower R F)) / of_nat (length (get_conditions R)))
       \<and> (get_conditions R = [] \<longrightarrow> score_of lower R F = 0)
       \<and> set (matched_of lower R F) \<union> set (unmatched_of lower R F) = fst ` set (get_conditions R)
       \<and> set (matched_of lower R F) \<inter> set (unmatched_of lower R F) = {}
       \<and> distinct (matched_of lower R F @ unmatched_of lower R F)"
proof -
  have d1: "distinct (matched_of lower R F)"
    using assms by (simp add: matched_of_filter distinct_map_filter)
  have d2: "distinct (unmatched_of lower R F)"
    using assms by (simp add: unmatched_of_filter distinct_map_filter)
  have i: "set (matched_of lower R F) \<inter> set (unmatched_of lower R F) = {}"
    unfolding matched_of_filter unmatched_of_filter
    using assms by (rule partition_keys)
  have u: "set (matched_of lower R F) \<union> set (unmatched_of lower R F) = fst ` set (get_conditions R)"
    unfolding matched_of_filter unmatched_of_filter
    using partition_keys_union [of "key_matched lower F" "get_conditions R"] by simp
  have s: "get_conditions R \<noteq> [] \<longrightarrow>
            score_of lower R F = of_nat (length (matched_of lower R F)) / of_nat (length (get_conditions R))"
    by (simp add: score_of_eq)
  have z: "get_conditions R = [] \<longrightarrow> score_of lower R F = 0"
    by (simp add: score_of_eq)
  from score_of_bounds d1 d2 i u s z show ?thesis by simp
qed

lemma heat_eval:
  "match_conditions ascii_lower heat_rule (map_of heat_facts)
     = (2 / 3, [''device'', ''fan_noise''], [''hot_surface''])"
  by code_simp

lemma heat_conditions:
  "get_conditions heat_rule
     = [(''device'', PStr ''computer''), (''fan_noise'', PBool True),
        (''hot_surface'', PBool True)]"
  by (simp add: heat_rule_def get_conditions_def)

theorem match_conditions_score_and_partition_witness:
  "distinct (map fst (get_conditions heat_rule))
   \<and> get_conditions heat_rule \<noteq> []
   \<and> score_of ascii_lower heat_rule (map_of heat_facts) = 2 / 3
   \<and> 0 \<le> score_of ascii_lower heat_rule (map_of heat_facts)
   \<and> score_of ascii_lower heat_rule (map_of heat_facts) \<le> 1
   \<and> set (matched_of ascii_lower heat_rule (map_of heat_facts))
       \<inter> set (unmatched_of ascii_lower heat_rule (map_of heat_facts)) = {}"
proof -
  have h: "distinct (map fst (get_conditions heat_rule))"
    by (simp add: heat_conditions)
  have m: "matched_of ascii_lower heat_rule (map_of heat_facts) = [''device'', ''fan_noise'']"
    by (simp add: matched_of_def heat_eval)
  from match_conditions_score_and_partition [OF h, of ascii_lower "map_of heat_facts"] h m
  show ?thesis by (simp add: heat_conditions)
qed

section \<open>The matcher compares booleans without the token mapping\<close>

text \<open>
  Claim C1.  The claim says that \<open>match_conditions\<close> maps a string fact to a boolean
  through the tokens yes/true/1 and no/false/0 before comparing it with a boolean
  expected value.  The function compares with \<open>==\<close> instead, so the fact \<open>"yes"\<close> against
  the expected value \<open>True\<close> is unmatched, as \<open>"maybe"\<close> is; only a boolean fact matches.
  The engine's own \<open>_values_match\<close>, used by backward chaining, does map the tokens.
\<close>

theorem match_conditions_bool_vs_string:
  "match_conditions ascii_lower yes_rule (map_of [(''hot_surface'', PStr ''yes'')])
     = (0, [], [''hot_surface''])
   \<and> match_conditions ascii_lower yes_rule (map_of [(''hot_surface'', PStr ''maybe'')])
     = (0, [], [''hot_surface''])
   \<and> match_conditions ascii_lower yes_rule (map_of [(''hot_surface'', PBool True)])
     = (1, [''hot_surface''], [])
   \<and> values_match ascii_lower (PStr ''yes'') (PBool True)
   \<and> \<not> values_match ascii_lower (PStr ''maybe'') (PBool True)"
  by code_simp

lemma condition_matches_bool_str: "\<not> condition_matches lower (PBool b) (PStr s)"
  by (simp add: condition_matches_def)

section \<open>Monotonicity of the score\<close>

lemma length_filter_mono:
  "(\<And>x. x \<in> set xs \<Longrightarrow> P x \<Longrightarrow> Q x) \<Longrightarrow> length (filter P xs) \<le> length (filter Q xs)"
  by (induction xs) auto

lemma key_matched_extend:
  assumes "F k = None" "key_matched lower F c"
  shows "key_matched lower (F(k \<mapsto> v)) c"
  using assms by (cases "fst c = k") (auto simp: key_matched_def)

text \<open>
  Claim C8.  For a condition key \<open>k\<close> of rule \<open>R\<close> that is absent from the facts \<open>F\<close>
  (so it is unmatched), adding a fact for \<open>k\<close> whose value satisfies the expected value,
  and changing nothing else, does not decrease the score of \<open>R\<close>.
\<close>

theorem match_conditions_monotone:
  assumes "(k, ev) \<in> set (get_conditions R)" and "F k = None" and "condition_matches lower ev v"
  shows "score_of lower R F \<le> score_of lower R (F(k \<mapsto> v))"
proof -
  have n: "length (get_conditions R) \<noteq> 0" using assms(1) by auto
  have "length (matched_of lower R F) \<le> length (matched_of lower R (F(k \<mapsto> v)))"
    unfolding matched_of_filter length_map
    using key_matched_extend [of F k lower _ v] assms(2)
    by (intro length_filter_mono) blast
  then have "(of_nat (length (matched_of lower R F)) :: rat)
               \<le> of_nat (length (matched_of lower R (F(k \<mapsto> v))))"
    by (simp only: of_nat_le_iff)
  then show ?thesis using n
    by (simp add: score_of_eq divide_right_mono)
qed

lemma heat_eval_full:
  "match_conditions ascii_lower heat_rule ((map_of heat_facts)(''hot_surface'' \<mapsto> PBool True))
     = (1, [''device'', ''fan_noise'', ''hot_surface''], [])"
  by code_simp

theorem match_conditions_monotone_witness:
  "(''hot_surface'', PBool True) \<in> set (get_conditions heat_rule)
   \<and> map_of heat_facts ''hot_surface'' = None
   \<and> condition_matches ascii_lower (PBool True) (PBool True)
   \<and> score_of ascii_lower heat_rule (map_of heat_facts) = 2 / 3
   \<and> score_of ascii_lower heat_rule ((map_of heat_facts)(''hot_surface'' \<mapsto> PBool True)) = 1
   \<and> score_of ascii_lower heat_rule (map_of heat_facts)
       \<le> score_of ascii_lower heat_rule ((map_of heat_facts)(''hot_surface'' \<mapsto> PBool True))"
proof -
  have a: "(''hot_surface'', PBool True) \<in> set (get_conditions heat_rule)"
    by (simp add: heat_conditions)
  have b: "map_of heat_facts ''hot_surface'' = None"
    by (simp add: heat_facts_def)
  have c: "condition_matches ascii_lower (PBool True) (PBool True)"
    by (simp add: condition_matches_def)
  from match_conditions_monotone
         [of "''hot_surface''" "PBool True" heat_rule "map_of heat_facts" ascii_lower
             "PBool True"] a b c
  show ?thesis
    by (simp add: score_of_def heat_eval heat_eval_full)
qed

section \<open>Loading the rule store\<close>

text \<open>
  Claim C7, as stated: loading fails with an error when a rule record of the source is
  missing required fields.  It does not: \<open>_load_rules\<close> checks no field of any record, and
  a source holding the empty record loads with that record in the catalog.
\<close>

theorem load_rules_accepts_malformed:
  "load_rules (Some \<lparr> f_rules = Some [heat_rule, empty_rule] \<rparr>) None
     = Inr \<lparr> computer_rules = [heat_rule, empty_rule], mobile_rules = [],
             all_rules = [heat_rule, empty_rule] \<rparr>"
  by (simp add: load_rules_def file_rules_def Let_def)

text \<open>
  Claim C7, amended.  Loading validates nothing and never fails on the content of the
  rule records: for every pair of sources the store holds exactly the records of the
  computer source, the records of the mobile source, and their concatenation; a missing
  file or a missing \<open>rules\<close> key gives the empty list.
\<close>

theorem load_rules_never_fails:
  "load_rules computer_file mobile_file
     = Inr \<lparr> computer_rules = file_rules computer_file,
             mobile_rules = file_rules mobile_file,
             all_rules = file_rules computer_file @ file_rules mobile_file \<rparr>"
  by (simp add: load_rules_def Let_def)

section \<open>The ranker\<close>

lemma set_insert_desc: "set (insert_desc x ys) = insert x (set ys)"
  by (induction ys) auto

lemma set_sort_desc: "set (sort_desc xs) = set xs"
  by (induction xs) (auto simp: set_insert_desc)

lemma not_key_less_ranks: "\<not> key_less (rank_key x) (rank_key y) \<longleftrightarrow> ranks_before x y"
  by (auto simp: key_less_def ranks_before_def rank_key_def)

lemma ranks_before_trans: "ranks_before a b \<Longrightarrow> ranks_before b c \<Longrightarrow> ranks_before a c"
  by (auto simp: ranks_before_def)

lemma ranks_before_total: "ranks_before a b \<or> ranks_before b a"
  by (auto simp: ranks_before_def)

lemma sorted_insert_desc:
  "sorted_wrt ranks_before ys \<Longrightarrow> sorted_wrt ranks_before (insert_desc x ys)"
proof (induction ys)
  case Nil
  then show ?case by simp
next
  case (Cons y ys)
  show ?case
  proof (cases "key_less (rank_key x) (rank_key y)")
    case True
    then have "ranks_before y x"
      using ranks_before_total not_key_less_ranks by blast
    with Cons True show ?thesis
      by (auto simp: set_insert_desc)
  next
    case False
    then have xy: "ranks_before x y" by (simp add: not_key_less_ranks)
    have "\<forall>z\<in>set ys. ranks_before x z"
      using Cons.prems xy ranks_before_trans by auto
    with Cons.prems xy False show ?thesis by simp
  qed
qed

lemma sorted_sort_desc: "sorted_wrt ranks_before (sort_desc xs)"
  by (induction xs) (auto simp: sorted_insert_desc)

lemma filter_insert_desc:
  "filter (\<lambda>m. rank_key m = k) (insert_desc x ys)
     = (if rank_key x = k then x # filter (\<lambda>m. rank_key m = k) ys
        else filter (\<lambda>m. rank_key m = k) ys)"
  by (induction ys) (auto simp: key_less_def)

lemma sort_desc_stable:
  "filter (\<lambda>m. rank_key m = k) (sort_desc xs) = filter (\<lambda>m. rank_key m = k) xs"
  by (induction xs) (auto simp: filter_insert_desc)

lemma collect_matches_eq:
  "collect_matches lower rules F thr = map (match_of lower F) (filter (\<lambda>r. thr \<le> score_of lower r F) rules)"
  by (induction rules)
     (auto simp: match_of_def score_of_def matched_of_def unmatched_of_def split: prod.splits)

lemma find_matching_rules_eq:
  "find_matching_rules lower store F dev cat thr
     = sort_desc (map (match_of lower F) (filter (\<lambda>r. thr \<le> score_of lower r F) (candidate_rules lower store dev cat)))"
  by (simp add: find_matching_rules_def collect_matches_eq)

text \<open>
  Claim C5.  The list returned by \<open>find_matching_rules\<close> is sorted by match score
  descending, ties broken by higher rule confidence (a missing confidence counting as
  0); entries equal in both keep the order they have in the catalog, that is, in the
  list of candidates at or above the threshold taken in catalog order; in particular,
  of two entries with equal score the one with the higher authored confidence comes
  first.
\<close>

theorem find_matching_rules_ranked:
  "sorted_wrt ranks_before (find_matching_rules lower store F dev cat thr)
   \<and> (\<forall>k. filter (\<lambda>m. rank_key m = k) (find_matching_rules lower store F dev cat thr)
          = filter (\<lambda>m. rank_key m = k)
              (map (match_of lower F) (filter (\<lambda>r. thr \<le> score_of lower r F) (candidate_rules lower store dev cat))))
   \<and> (\<forall>i j ci cj.
         i < length (find_matching_rules lower store F dev cat thr)
         \<and> j < length (find_matching_rules lower store F dev cat thr)
         \<and> m_match_score (find_matching_rules lower store F dev cat thr ! i)
             = m_match_score (find_matching_rules lower store F dev cat thr ! j)
         \<and> r_confidence (m_rule (find_matching_rules lower store F dev cat thr ! i)) = Some ci
         \<and> r_confidence (m_rule (find_matching_rules lower store F dev cat thr ! j)) = Some cj
         \<and> ci > cj
         \<longrightarrow> i < j)"
proof -
  let ?ms = "find_matching_rules lower store F dev cat thr"
  have s: "sorted_wrt ranks_before ?ms"
    by (simp add: find_matching_rules_eq sorted_sort_desc)
  have st: "\<forall>k. filter (\<lambda>m. rank_key m = k) ?ms
          = filter (\<lambda>m. rank_key m = k)
              (map (match_of lower F) (filter (\<lambda>r. thr \<le> score_of lower r F) (candidate_rules lower store dev cat)))"
    by (simp add: find_matching_rules_eq sort_desc_stable)
  have t: "i < j" if "i < length ?ms" "j < length ?ms"
      "m_match_score (?ms ! i) = m_match_score (?ms ! j)"
      "r_confidence (m_rule (?ms ! i)) = Some ci" "r_confidence (m_rule (?ms ! j)) = Some cj"
      "ci > cj" for i j ci cj
  proof (rule ccontr)
    assume "\<not> i < j"
    then consider "j < i" | "j = i" by linarith
    then show False
    proof cases
      case 1
      then have "ranks_before (?ms ! j) (?ms ! i)"
        using s that(1) by (simp add: sorted_wrt_iff_nth_less)
      then show False using that by (simp add: ranks_before_def rank_key_def)
    next
      case 2
      then show False using that by simp
    qed
  qed
  from s st t show ?thesis by blast
qed

lemma tie_eval:
  "find_matching_rules ascii_lower tie_store (map_of heat_facts) None None (1 / 2)
     = [match_of ascii_lower (map_of heat_facts) rule_b, match_of ascii_lower (map_of heat_facts) rule_a]"
  by code_simp

lemma tie_scores:
  "score_of ascii_lower rule_a (map_of heat_facts) = 1 \<and> score_of ascii_lower rule_b (map_of heat_facts) = 1"
  by code_simp

theorem find_matching_rules_ranked_witness:
  "length (find_matching_rules ascii_lower tie_store (map_of heat_facts) None None (1 / 2)) = 2
   \<and> map (r_id \<circ> m_rule) (find_matching_rules ascii_lower tie_store (map_of heat_facts) None None (1 / 2))
       = [Some ''B'', Some ''A'']
   \<and> map m_match_score (find_matching_rules ascii_lower tie_store (map_of heat_facts) None None (1 / 2))
       = [1, 1]
   \<and> map (r_confidence \<circ> m_rule)
         (find_matching_rules ascii_lower tie_store (map_of heat_facts) None None (1 / 2))
       = [Some (95 / 100), Some (9 / 10)]
   \<and> sorted_wrt ranks_before
         (find_matching_rules ascii_lower tie_store (map_of heat_facts) None None (1 / 2))"
proof -
  have s: "sorted_wrt ranks_before
             (find_matching_rules ascii_lower tie_store (map_of heat_facts) None None (1 / 2))"
    using find_matching_rules_ranked [of ascii_lower tie_store "map_of heat_facts" None None "1 / 2"]
    by blast
  have c: "r_id rule_a = Some ''A'' \<and> r_id rule_b = Some ''B''
           \<and> r_confidence rule_a = Some (9 / 10) \<and> r_confidence rule_b = Some (95 / 100)"
    by (simp add: rule_a_def rule_b_def)
  from s c show ?thesis
    by (simp add: tie_eval tie_scores match_of_def)
qed

section \<open>The facts of a session\<close>

text \<open>The working memory \<open>diagnose\<close> builds maps \<open>device\<close> to the device type, overridden
  by the caller's symptoms.\<close>

lemma working_memory_add_facts:
  "map_of (working_memory (add_facts e fs)) = map_of (working_memory e) ++ map_of (rev fs)"
  by (induction e fs rule: add_facts.induct)
     (auto simp: add_fact_def update_conv' map_add_def fun_eq_iff split: option.splits)

lemma map_of_rev_distinct:
  "distinct (map fst xs) \<Longrightarrow> map_of (rev xs) = map_of xs"
proof (induction xs)
  case Nil
  then show ?case by simp
next
  case (Cons x xs)
  obtain a b where x: "x = (a, b)" by (cases x)
  from Cons.prems x have "map_of xs a = None"
    by (simp add: map_of_eq_None_iff)
  then have "[a \<mapsto> b] ++ map_of xs = (map_of xs)(a \<mapsto> b)"
    by (auto simp: fun_eq_iff map_add_def split: option.splits)
  with Cons x show ?case by simp
qed

lemma session_facts:
  assumes "distinct (map fst symptoms)"
  shows "map_of (working_memory (session_start e dev symptoms))
           = [''device'' \<mapsto> PStr dev] ++ map_of symptoms"
  using assms
  by (simp add: session_start_def working_memory_add_facts add_fact_def reset_def
        map_of_rev_distinct)

section \<open>Forward chaining\<close>

lemma fire_loop_result:
  assumes "\<forall>m\<in>set ms. r_id (m_rule m) \<noteq> None"
  shows "fire_loop ms thr e acc =
           (Inr (acc @ map (diagnosis_of (working_memory e)) (filter (fires thr) ms)),
            e\<lparr> inference_trace := inference_trace e @ map fired_entry (filter (fires thr) ms),
               fired_rules := fired_rules e @ map m_rule (filter (fires thr) ms) \<rparr>)"
  using assms
proof (induction ms arbitrary: e acc)
  case Nil
  then show ?case by simp
next
  case (Cons m ms)
  then obtain i where i: "r_id (m_rule m) = Some i" by auto
  from Cons.prems have rest: "\<forall>m\<in>set ms. r_id (m_rule m) \<noteq> None" by simp
  show ?case
  proof (cases "fires thr m")
    case True
    then show ?thesis
      using i Cons.IH [OF rest]
      by (simp add: fires_def diagnosis_of_def fired_entry_def rule_id_of_def Let_def)
  next
    case False
    then show ?thesis
      using Cons.IH [OF rest] by (simp add: fires_def)
  qed
qed

lemma set_find_matching_rules:
  "set (find_matching_rules lower store F dev cat thr)
     = match_of lower F ` {r \<in> set (candidate_rules lower store dev cat). thr \<le> score_of lower r F}"
  by (auto simp: find_matching_rules_eq set_sort_desc)

lemma final_confidence_match_of:
  "final_confidence (match_of lower F r) = combined_confidence lower r F"
  by (simp add: final_confidence_def combined_confidence_def match_of_def)

lemma fires_match_of:
  "fires thr (match_of lower F r) \<longleftrightarrow> round_double thr \<le> combined_confidence lower r F"
  by (simp add: fires_def final_confidence_match_of)

lemma m_rule_match_of: "m_rule (match_of lower F r) = r"
  by (simp add: match_of_def)

lemma fired_set:
  "m_rule ` set (filter (fires thr) (find_matching_rules lower store F dev cat thr))
     = {r \<in> set (candidate_rules lower store dev cat).
          thr \<le> score_of lower r F \<and> round_double thr \<le> combined_confidence lower r F}"
proof -
  let ?S = "{r \<in> set (candidate_rules lower store dev cat). thr \<le> score_of lower r F}"
  have "m_rule ` {m \<in> match_of lower F ` ?S. fires thr m} = {r \<in> ?S. fires thr (match_of lower F r)}"
    by (force simp: m_rule_match_of)
  then show ?thesis
    by (auto simp: set_find_matching_rules fires_match_of)
qed

lemma forward_chain_result:
  assumes "\<forall>r\<in>set (candidate_rules lower (kb e) dev cat). r_id r \<noteq> None"
  shows "forward_chain lower e dev cat thr =
     (let fired = filter (fires thr)
                    (find_matching_rules lower (kb e) (map_of (working_memory e)) dev cat thr)
      in (Inr (map (diagnosis_of (working_memory e)) fired),
          e\<lparr> inference_trace :=
                inference_trace e @ [Starting_forward_chaining] @ map fired_entry fired
                @ [Forward_chaining_complete (length fired)],
             fired_rules := fired_rules e @ map m_rule fired \<rparr>))"
proof -
  let ?e1 = "e\<lparr> inference_trace := inference_trace e @ [Starting_forward_chaining] \<rparr>"
  let ?ms = "find_matching_rules lower (kb e) (map_of (working_memory e)) dev cat thr"
  have "\<forall>m\<in>set ?ms. r_id (m_rule m) \<noteq> None"
    using assms by (auto simp: set_find_matching_rules m_rule_match_of)
  from fire_loop_result [OF this, of thr ?e1 "[]"]
  show ?thesis
    by (simp add: forward_chain_def Let_def)
qed

lemma fire_loop_none:
  assumes "\<forall>m\<in>set ms. \<not> fires thr m"
  shows "fire_loop ms thr e acc = (Inr acc, e)"
  using assms by (induction ms arbitrary: e acc) (auto simp: fires_def)

lemma kb_add_facts: "kb (add_facts e fs) = kb e"
  by (induction e fs rule: add_facts.induct) (auto simp: add_fact_def)

lemma fired_rules_add_facts: "fired_rules (add_facts e fs) = fired_rules e"
  by (induction e fs rule: add_facts.induct) (auto simp: add_fact_def)

lemma kb_session_start: "kb (session_start e dev symptoms) = kb e"
  by (simp add: session_start_def kb_add_facts add_fact_def reset_def)

lemma fired_rules_session_start: "fired_rules (session_start e dev symptoms) = []"
  by (simp add: session_start_def fired_rules_add_facts add_fact_def reset_def)

lemma diagnosis_of_fields:
  "d_confidence (diagnosis_of wm m) = final_confidence m"
  "d_rule_id (diagnosis_of wm m) = rule_id_of (m_rule m)"
  by (simp_all add: diagnosis_of_def make_diagnosis_def Let_def)

lemma final_confidence_found:
  assumes "m \<in> set (find_matching_rules lower store F dev cat thr)"
  shows "final_confidence m = combined_confidence lower (m_rule m) F"
  using assms
  by (auto simp: set_find_matching_rules final_confidence_match_of m_rule_match_of)

text \<open>
  Claim C2.  In forward chaining as \<open>diagnose\<close> invokes it (on the session's facts, scoped
  by device type and category, threshold 0.3), a rule of the scoped catalog is among the
  fired rules, which correspond one to one and in order to the returned diagnoses, if and
  only if its match score is at least 0.3 and its combined confidence, the float product
  of match score and rule confidence, is at least the double 0.3; each returned diagnosis
  carries that product as its confidence.  Every rule has an \<open>id\<close>, which is the
  hypothesis.
\<close>

theorem forward_chain_two_thresholds:
  assumes "\<forall>r\<in>set (candidate_rules lower (kb e) (Some dev) (Some cat)). r_id r \<noteq> None"
  shows "\<exists>ds e'.
     forward_chain lower (session_start e dev symptoms) (Some dev) (Some cat) (3 / 10) = (Inr ds, e')
     \<and> length (fired_rules e') = length ds
     \<and> set (fired_rules e')
         = {r \<in> set (candidate_rules lower (kb e) (Some dev) (Some cat)).
              3 / 10 \<le> score_of lower r (map_of (working_memory (session_start e dev symptoms)))
              \<and> round_double (3 / 10)
                  \<le> combined_confidence lower r
                       (map_of (working_memory (session_start e dev symptoms)))}
     \<and> (\<forall>i<length ds.
           r_id (fired_rules e' ! i) = Some (d_rule_id (ds ! i))
           \<and> d_confidence (ds ! i)
               = combined_confidence lower (fired_rules e' ! i)
                   (map_of (working_memory (session_start e dev symptoms))))"
proof -
  let ?e = "session_start e dev symptoms"
  let ?F = "map_of (working_memory ?e)"
  let ?ms = "find_matching_rules lower (kb e) ?F (Some dev) (Some cat) (3 / 10)"
  let ?fired = "filter (fires (3 / 10)) ?ms"
  let ?ds = "map (diagnosis_of (working_memory ?e)) ?fired"
  let ?e' = "?e\<lparr> inference_trace :=
                  inference_trace ?e @ [Starting_forward_chaining] @ map fired_entry ?fired
                  @ [Forward_chaining_complete (length ?fired)],
                fired_rules := fired_rules ?e @ map m_rule ?fired \<rparr>"
  have ids: "\<forall>r\<in>set (candidate_rules lower (kb ?e) (Some dev) (Some cat)). r_id r \<noteq> None"
    using assms by (simp add: kb_session_start)
  have run: "forward_chain lower ?e (Some dev) (Some cat) (3 / 10) = (Inr ?ds, ?e')"
    using forward_chain_result [OF ids, of "3 / 10"] by (simp add: Let_def kb_session_start)
  have fr: "fired_rules ?e' = map m_rule ?fired"
    by (simp add: fired_rules_session_start)
  have len: "length (fired_rules ?e') = length ?ds"
    by (simp add: fired_rules_session_start)
  have st: "set (fired_rules ?e')
         = {r \<in> set (candidate_rules lower (kb e) (Some dev) (Some cat)).
              3 / 10 \<le> score_of lower r ?F
              \<and> round_double (3 / 10) \<le> combined_confidence lower r ?F}"
    unfolding fr set_map by (rule fired_set)
  have each: "r_id (fired_rules ?e' ! i) = Some (d_rule_id (?ds ! i))
           \<and> d_confidence (?ds ! i) = combined_confidence lower (fired_rules ?e' ! i) ?F"
    if "i < length ?ds" for i
  proof -
    from that have i: "i < length ?fired" by simp
    then have mem: "?fired ! i \<in> set ?ms"
      using nth_mem [OF i] by simp
    then have "m_rule (?fired ! i) \<in> set (candidate_rules lower (kb e) (Some dev) (Some cat))"
      by (auto simp: set_find_matching_rules m_rule_match_of)
    with assms have "r_id (m_rule (?fired ! i)) \<noteq> None" by blast
    then obtain n where n: "r_id (m_rule (?fired ! i)) = Some n" by auto
    have fc: "final_confidence (?fired ! i) = combined_confidence lower (m_rule (?fired ! i)) ?F"
      using mem by (rule final_confidence_found)
    show ?thesis
      using i n fc
      by (simp add: fired_rules_session_start diagnosis_of_fields rule_id_of_def)
  qed
  from run len st each show ?thesis by blast
qed

text \<open>The second scenario of the specification: two of three conditions matched at
  confidence 0.9 fire with the double 0.6.\<close>

lemma heat_run:
  "(case forward_chain ascii_lower
           (session_start (new_engine heat_store) ''computer'' [(''fan_noise'', PBool True)])
           (Some ''computer'') (Some ''overheating'') (3 / 10) of
      (Inr ds, e') \<Rightarrow> map d_confidence ds = [round_double (6 / 10)]
                       \<and> map d_rule_id ds = [''COMP_HEAT_001'']
                       \<and> fired_rules e' = [heat_rule]
    | (Inl err, e') \<Rightarrow> False)"
  by code_simp

lemma heat_ids:
  "\<forall>r\<in>set (candidate_rules ascii_lower (kb (new_engine heat_store)) (Some ''computer'')
               (Some ''overheating'')). r_id r \<noteq> None"
  by code_simp

text \<open>
  At the rounding boundary: with 10 of 19 conditions matched and confidence 0.57 the
  exact product is 3/10, the float product is \<open>0.29999999999999993\<close>, below the double
  0.3, and the rule does not fire.
\<close>

lemma below_score:
  "score_of ascii_lower (counting_rule 19 (Some (57 / 100)))
     (map_of (working_memory
        (session_start (new_engine (single_store (counting_rule 19 (Some (57 / 100)))))
           ''computer'' (numbered_facts 10)))) = 10 / 19"
  by code_simp

lemma below_product:
  "(10 / 19) * (57 / 100) = (3 / 10 :: rat)
   \<and> float_mul (10 / 19) (57 / 100) = 2702159776422297 / 9007199254740992
   \<and> float_mul (10 / 19) (57 / 100) < round_double (3 / 10)"
  by code_simp

lemma below_run:
  "(case forward_chain ascii_lower
           (session_start (new_engine (single_store (counting_rule 19 (Some (57 / 100)))))
              ''computer'' (numbered_facts 10))
           (Some ''computer'') (Some ''overheating'') (3 / 10) of
      (Inr ds, e') \<Rightarrow> ds = [] \<and> fired_rules e' = []
    | (Inl err, e') \<Rightarrow> False)"
  by code_simp

lemma below_ids:
  "\<forall>r\<in>set (candidate_rules ascii_lower
                (kb (new_engine (single_store (counting_rule 19 (Some (57 / 100))))))
                (Some ''computer'') (Some ''overheating'')). r_id r \<noteq> None"
  by code_simp

theorem forward_chain_two_thresholds_witness:
  "(\<exists>ds e'.
      forward_chain ascii_lower
        (session_start (new_engine heat_store) ''computer'' [(''fan_noise'', PBool True)])
        (Some ''computer'') (Some ''overheating'') (3 / 10) = (Inr ds, e')
      \<and> map d_confidence ds = [round_double (6 / 10)]
      \<and> map d_rule_id ds = [''COMP_HEAT_001'']
      \<and> fired_rules e' = [heat_rule]
      \<and> length (fired_rules e') = length ds)
   \<and> (\<exists>ds e'.
        forward_chain ascii_lower
          (session_start (new_engine (single_store (counting_rule 19 (Some (57 / 100)))))
             ''computer'' (numbered_facts 10))
          (Some ''computer'') (Some ''overheating'') (3 / 10) = (Inr ds, e')
        \<and> ds = [] \<and> fired_rules e' = []
        \<and> length (fired_rules e') = length ds)
   \<and> combined_confidence ascii_lower (counting_rule 19 (Some (57 / 100)))
         (map_of (working_memory
            (session_start (new_engine (single_store (counting_rule 19 (Some (57 / 100)))))
               ''computer'' (numbered_facts 10))))
       < round_double (3 / 10)"
proof -
  from forward_chain_two_thresholds [OF heat_ids, of "[(''fan_noise'', PBool True)]"]
  obtain ds e' where
    run: "forward_chain ascii_lower
            (session_start (new_engine heat_store) ''computer'' [(''fan_noise'', PBool True)])
            (Some ''computer'') (Some ''overheating'') (3 / 10) = (Inr ds, e')"
    and len: "length (fired_rules e') = length ds"
    by blast
  from heat_run run len have first:
    "\<exists>ds e'.
      forward_chain ascii_lower
        (session_start (new_engine heat_store) ''computer'' [(''fan_noise'', PBool True)])
        (Some ''computer'') (Some ''overheating'') (3 / 10) = (Inr ds, e')
      \<and> map d_confidence ds = [round_double (6 / 10)]
      \<and> map d_rule_id ds = [''COMP_HEAT_001'']
      \<and> fired_rules e' = [heat_rule]
      \<and> length (fired_rules e') = length ds"
    by simp
  from forward_chain_two_thresholds [OF below_ids, of "numbered_facts 10"]
  obtain ds2 e2 where
    run2: "forward_chain ascii_lower
            (session_start (new_engine (single_store (counting_rule 19 (Some (57 / 100)))))
               ''computer'' (numbered_facts 10))
            (Some ''computer'') (Some ''overheating'') (3 / 10) = (Inr ds2, e2)"
    and len2: "length (fired_rules e2) = length ds2"
    by blast
  from below_run run2 len2 have second:
    "\<exists>ds e'.
        forward_chain ascii_lower
          (session_start (new_engine (single_store (counting_rule 19 (Some (57 / 100)))))
             ''computer'' (numbered_facts 10))
          (Some ''computer'') (Some ''overheating'') (3 / 10) = (Inr ds, e')
        \<and> ds = [] \<and> fired_rules e' = []
        \<and> length (fired_rules e') = length ds"
    by simp
  have third:
    "combined_confidence ascii_lower (counting_rule 19 (Some (57 / 100)))
         (map_of (working_memory
            (session_start (new_engine (single_store (counting_rule 19 (Some (57 / 100)))))
               ''computer'' (numbered_facts 10))))
       < round_double (3 / 10)"
    unfolding combined_confidence_def below_score
    using below_product by (simp add: rule_confidence_def counting_rule_def)
  from first second third show ?thesis by (intro conjI)
qed

section \<open>The fallback diagnosis\<close>

lemma get_general_solutions_nonempty: "get_general_solutions category device_type \<noteq> []"
  by (simp add: get_general_solutions_def)

lemma forward_chain_none:
  assumes "\<forall>r\<in>set (candidate_rules lower (kb e) dev cat).
             \<not> round_double thr \<le> combined_confidence lower r (map_of (working_memory e))"
  shows "forward_chain lower e dev cat thr =
           (Inr [], e\<lparr> inference_trace :=
                         inference_trace e
                         @ [Starting_forward_chaining, Forward_chaining_complete 0] \<rparr>)"
proof -
  let ?e1 = "e\<lparr> inference_trace := inference_trace e @ [Starting_forward_chaining] \<rparr>"
  let ?ms = "find_matching_rules lower (kb e) (map_of (working_memory e)) dev cat thr"
  have "\<forall>m\<in>set ?ms. \<not> fires thr m"
    using assms by (auto simp: set_find_matching_rules fires_match_of)
  from fire_loop_none [OF this, of ?e1 "[]"]
  show ?thesis by (simp add: forward_chain_def Let_def)
qed

lemma diagnose_session:
  "diagnose lower e dev cat symptoms =
     (case forward_chain lower (session_start e dev symptoms) (Some dev) (Some cat) (3 / 10) of
        (Inl err, e2) \<Rightarrow> (Inl err, e2)
      | (Inr diagnoses, e2) \<Rightarrow>
          (case diagnoses of
             best # others \<Rightarrow>
               (Inr \<lparr> success = True, diagnosis = best_info best,
                      alternative_diagnoses = take 2 others,
                      result_trace = inference_trace e2 \<rparr>, e2)
           | [] \<Rightarrow>
               (Inr \<lparr> success = False, diagnosis = fallback_info cat dev,
                      alternative_diagnoses = [],
                      result_trace = inference_trace e2 \<rparr>, e2)))"
  by (simp add: diagnose_def session_start_def Let_def)

lemma general_solutions_table:
  "get_general_solutions ''overheating'' d
     = [''Ensure proper ventilation around the device'', ''Clean dust from vents and fans'',
        ''Avoid using in direct sunlight or hot environments'',
        ''Consider replacing thermal paste (for computers)'']"
  "get_general_solutions ''printer_jam'' d
     = [''Restart the device and try again'', ''Consult technical support'']"
  by (simp_all add: get_general_solutions_def)

text \<open>
  Claim C3, as stated: whenever no rule scores above 0.3 combined confidence, \<open>diagnose\<close>
  returns the fallback.  The thresholds are inclusive: the only rule of this store has
  score 1.0 and confidence 0.3, its combined confidence is the double 0.3 itself, which
  is not above 0.3, and it fires.
\<close>

theorem diagnose_fires_at_threshold:
  "all_rules edge_store = [edge_rule] \<and> computer_rules edge_store = [edge_rule]
   \<and> mobile_rules edge_store = []
   \<and> score_of ascii_lower edge_rule
         (map_of (working_memory (session_start (new_engine edge_store) ''computer'' []))) = 1
   \<and> combined_confidence ascii_lower edge_rule
         (map_of (working_memory (session_start (new_engine edge_store) ''computer'' [])))
       = round_double (3 / 10)
   \<and> \<not> round_double (3 / 10)
          < combined_confidence ascii_lower edge_rule
              (map_of (working_memory (session_start (new_engine edge_store) ''computer'' [])))
   \<and> (case fst (diagnose ascii_lower (new_engine edge_store) ''computer'' ''overheating'' []) of
         Inr res \<Rightarrow> success res \<and> i_rule_id (diagnosis res) = Some ''EDGE''
                    \<and> i_confidence (diagnosis res) = round_double (3 / 10)
       | Inl err \<Rightarrow> False)"
  by code_simp

lemma candidate_rules_subset:
  "set (candidate_rules lower store dev cat)
     \<subseteq> set (computer_rules store) \<union> set (mobile_rules store) \<union> set (all_rules store)"
  by (auto simp: candidate_rules_def get_rules_by_category_def get_rules_by_device_def
           split: option.splits if_splits)

lemma diagnose_fallback_pool:
  assumes "\<forall>r\<in>set (candidate_rules lower (kb e) (Some dev) (Some cat)).
             \<not> round_double (3 / 10)
                 \<le> combined_confidence lower r
                      (map_of (working_memory (session_start e dev symptoms)))"
  shows "\<exists>res e'.
     diagnose lower e dev cat symptoms = (Inr res, e')
     \<and> success res = False
     \<and> i_rule_id (diagnosis res) = None
     \<and> i_confidence (diagnosis res) = 5 / 10
     \<and> i_cause (diagnosis res) = ''General '' @ replace_underscore cat @ '' issue''
     \<and> i_solutions (diagnosis res) = get_general_solutions cat dev
     \<and> i_solutions (diagnosis res) \<noteq> []
     \<and> alternative_diagnoses res = []"
proof -
  let ?e = "session_start e dev symptoms"
  have "\<forall>r\<in>set (candidate_rules lower (kb ?e) (Some dev) (Some cat)).
             \<not> round_double (3 / 10) \<le> combined_confidence lower r (map_of (working_memory ?e))"
    using assms by (simp add: kb_session_start)
  from forward_chain_none [OF this]
  show ?thesis
    by (simp add: diagnose_session fallback_info_def get_general_solutions_nonempty)
qed

text \<open>
  Claim C3, amended.  Whenever no rule of the store reaches a combined confidence (the
  float product of match score and rule confidence) of at least the double 0.3 on the
  session's facts, \<open>diagnose\<close> returns a result with \<open>success\<close> false, \<open>rule_id\<close> \<open>None\<close>,
  confidence exactly 0.5, the cause text \<open>General <category> issue\<close>, and the non-empty
  solutions list that \<open>_get_general_solutions\<close> holds for the category (the default list
  for a category outside its table).
\<close>

theorem diagnose_fallback:
  assumes "\<forall>r\<in>set (computer_rules (kb e)) \<union> set (mobile_rules (kb e)) \<union> set (all_rules (kb e)).
             \<not> round_double (3 / 10)
                 \<le> combined_confidence lower r
                      (map_of (working_memory (session_start e dev symptoms)))"
  shows "\<exists>res e'.
     diagnose lower e dev cat symptoms = (Inr res, e')
     \<and> success res = False
     \<and> i_rule_id (diagnosis res) = None
     \<and> i_confidence (diagnosis res) = 5 / 10
     \<and> i_cause (diagnosis res) = ''General '' @ replace_underscore cat @ '' issue''
     \<and> i_solutions (diagnosis res) = get_general_solutions cat dev
     \<and> i_solutions (diagnosis res) \<noteq> []
     \<and> alternative_diagnoses res = []"
proof (rule diagnose_fallback_pool)
  show "\<forall>r\<in>set (candidate_rules lower (kb e) (Some dev) (Some cat)).
          \<not> round_double (3 / 10)
              \<le> combined_confidence lower r
                   (map_of (working_memory (session_start e dev symptoms)))"
    using assms candidate_rules_subset [of lower "kb e" "Some dev" "Some cat"] by blast
qed

text \<open>
  The witness is at the rounding boundary, below: 10 of 19 conditions matched at
  confidence 0.57, where the exact product is 3/10 and the float product is under the
  double 0.3.  At the boundary above, 7 of 10 matched at confidence
  \<open>0.42857142857142855\<close>, the exact product is under 3/10, the float product is the
  double 0.3, and the rule fires.
\<close>

lemma below_store_rules:
  "set (computer_rules (kb (new_engine (single_store (counting_rule 19 (Some (57 / 100)))))))
     \<union> set (mobile_rules (kb (new_engine (single_store (counting_rule 19 (Some (57 / 100)))))))
     \<union> set (all_rules (kb (new_engine (single_store (counting_rule 19 (Some (57 / 100)))))))
     = {counting_rule 19 (Some (57 / 100))}"
  by (simp add: new_engine_def single_store_def)

lemma below_combined:
  "combined_confidence ascii_lower (counting_rule 19 (Some (57 / 100)))
     (map_of (working_memory
        (session_start (new_engine (single_store (counting_rule 19 (Some (57 / 100)))))
           ''computer'' (numbered_facts 10))))
     < round_double (3 / 10)"
  unfolding combined_confidence_def below_score
  using below_product by (simp add: rule_confidence_def counting_rule_def)

lemma above_run:
  "score_of ascii_lower (counting_rule 10 (Some (7720456504063707 / 18014398509481984)))
     (map_of (working_memory
        (session_start
           (new_engine
              (single_store (counting_rule 10 (Some (7720456504063707 / 18014398509481984)))))
           ''computer'' (numbered_facts 7)))) = 7 / 10
   \<and> (7 / 10) * (7720456504063707 / 18014398509481984) < (3 / 10 :: rat)
   \<and> float_mul (7 / 10) (7720456504063707 / 18014398509481984) = round_double (3 / 10)
   \<and> (case fst (diagnose ascii_lower
                  (new_engine
                     (single_store
                        (counting_rule 10 (Some (7720456504063707 / 18014398509481984)))))
                  ''computer'' ''overheating'' (numbered_facts 7)) of
         Inr res \<Rightarrow> success res \<and> i_rule_id (diagnosis res) = Some ''COUNT''
                    \<and> i_confidence (diagnosis res) = round_double (3 / 10)
       | Inl err \<Rightarrow> False)"
  by code_simp

theorem diagnose_fallback_witness:
  "set (computer_rules (kb (new_engine (single_store (counting_rule 19 (Some (57 / 100)))))))
     \<union> set (mobile_rules (kb (new_engine (single_store (counting_rule 19 (Some (57 / 100)))))))
     \<union> set (all_rules (kb (new_engine (single_store (counting_rule 19 (Some (57 / 100)))))))
     = {counting_rule 19 (Some (57 / 100))}
   \<and> \<not> round_double (3 / 10)
          \<le> combined_confidence ascii_lower (counting_rule 19 (Some (57 / 100)))
               (map_of (working_memory
                  (session_start (new_engine (single_store (counting_rule 19 (Some (57 / 100)))))
                     ''computer'' (numbered_facts 10))))
   \<and> (\<exists>res e'.
        diagnose ascii_lower (new_engine (single_store (counting_rule 19 (Some (57 / 100)))))
          ''computer'' ''overheating'' (numbered_facts 10)
          = (Inr res, e')
        \<and> success res = False
        \<and> i_rule_id (diagnosis res) = None
        \<and> i_confidence (diagnosis res) = 5 / 10
        \<and> i_cause (diagnosis res) = ''General overheating issue''
        \<and> i_solutions (diagnosis res)
            = [''Ensure proper ventilation around the device'', ''Clean dust from vents and fans'',
               ''Avoid using in direct sunlight or hot environments'',
               ''Consider replacing thermal paste (for computers)''])"
proof -
  have n: "\<not> round_double (3 / 10)
          \<le> combined_confidence ascii_lower (counting_rule 19 (Some (57 / 100)))
               (map_of (working_memory
                  (session_start (new_engine (single_store (counting_rule 19 (Some (57 / 100)))))
                     ''computer'' (numbered_facts 10))))"
    using below_combined by simp
  have h: "\<forall>r\<in>set (computer_rules (kb (new_engine (single_store (counting_rule 19 (Some (57 / 100)))))))
               \<union> set (mobile_rules (kb (new_engine (single_store (counting_rule 19 (Some (57 / 100)))))))
               \<union> set (all_rules (kb (new_engine (single_store (counting_rule 19 (Some (57 / 100))))))).
             \<not> round_double (3 / 10)
                 \<le> combined_confidence ascii_lower r
                      (map_of (working_memory
                         (session_start
                            (new_engine (single_store (counting_rule 19 (Some (57 / 100)))))
                            ''computer'' (numbered_facts 10))))"
    unfolding below_store_rules using n by simp
  from diagnose_fallback [OF h, of "''overheating''"]
  obtain res e' where
    r: "diagnose ascii_lower (new_engine (single_store (counting_rule 19 (Some (57 / 100)))))
          ''computer'' ''overheating'' (numbered_facts 10) = (Inr res, e')"
    and p: "success res = False" "i_rule_id (diagnosis res) = None"
      "i_confidence (diagnosis res) = 5 / 10"
      "i_cause (diagnosis res) = ''General '' @ replace_underscore ''overheating'' @ '' issue''"
      "i_solutions (diagnosis res) = get_general_solutions ''overheating'' ''computer''"
    by blast
  have c: "i_cause (diagnosis res) = ''General overheating issue''"
    using p(4) by (simp add: replace_underscore_def)
  have sol: "i_solutions (diagnosis res)
            = [''Ensure proper ventilation around the device'', ''Clean dust from vents and fans'',
               ''Avoid using in direct sunlight or hot environments'',
               ''Consider replacing thermal paste (for computers)'']"
    using p(5) by (simp add: general_solutions_table)
  from r p(1,2,3) c sol have
    "\<exists>res e'.
        diagnose ascii_lower (new_engine (single_store (counting_rule 19 (Some (57 / 100)))))
          ''computer'' ''overheating'' (numbered_facts 10)
          = (Inr res, e')
        \<and> success res = False
        \<and> i_rule_id (diagnosis res) = None
        \<and> i_confidence (diagnosis res) = 5 / 10
        \<and> i_cause (diagnosis res) = ''General overheating issue''
        \<and> i_solutions (diagnosis res)
            = [''Ensure proper ventilation around the device'', ''Clean dust from vents and fans'',
               ''Avoid using in direct sunlight or hot environments'',
               ''Consider replacing thermal paste (for computers)'']"
    by blast
  with below_store_rules n show ?thesis by (intro conjI)
qed

section \<open>No residual state between calls\<close>

lemma kb_fire_loop: "kb (snd (fire_loop ms thr e acc)) = kb e"
  by (induction ms arbitrary: e acc) (auto simp: Let_def split: option.splits)

lemma kb_forward_chain: "kb (snd (forward_chain lower e dev cat thr)) = kb e"
proof -
  let ?e1 = "e\<lparr> inference_trace := inference_trace e @ [Starting_forward_chaining] \<rparr>"
  let ?ms = "find_matching_rules lower (kb e) (map_of (working_memory e)) dev cat thr"
  have "kb (snd (fire_loop ?ms thr ?e1 [])) = kb e"
    by (simp add: kb_fire_loop)
  then show ?thesis
    by (cases "fire_loop ?ms thr ?e1 []")
       (auto simp: forward_chain_def Let_def split: sum.splits)
qed

lemma kb_diagnose: "kb (snd (diagnose lower e dev cat symptoms)) = kb e"
proof -
  let ?fc = "forward_chain lower (session_start e dev symptoms) (Some dev) (Some cat) (3 / 10)"
  have "kb (snd ?fc) = kb e"
    by (simp add: kb_forward_chain kb_session_start)
  then show ?thesis
    by (cases ?fc) (auto simp: diagnose_session split: sum.splits list.splits)
qed

lemma reset_same_store: "kb e1 = kb e2 \<Longrightarrow> reset e1 = reset e2"
  by (cases e1, cases e2) (simp add: reset_def)

lemma diagnose_same_store:
  assumes "kb e1 = kb e2"
  shows "diagnose lower e1 dev cat symptoms = diagnose lower e2 dev cat symptoms"
  using reset_same_store [OF assms] by (simp add: diagnose_def)

text \<open>
  Claim C9.  Calling \<open>diagnose\<close> a second time on the engine the first call left, with
  the same arguments, yields the same result, trace included; and the result and final
  state of a call do not depend on the working memory, trace and fired-rule list the
  engine holds when the call starts.
\<close>

theorem diagnose_no_residual_state:
  "fst (diagnose lower (snd (diagnose lower e dev cat symptoms)) dev cat symptoms)
     = fst (diagnose lower e dev cat symptoms)
   \<and> diagnose lower \<lparr> kb = store, working_memory = wm, inference_trace = tr, fired_rules = fr \<rparr>
        dev cat symptoms
     = diagnose lower \<lparr> kb = store, working_memory = [], inference_trace = [], fired_rules = [] \<rparr>
        dev cat symptoms"
proof -
  have "diagnose lower (snd (diagnose lower e dev cat symptoms)) dev cat symptoms
          = diagnose lower e dev cat symptoms"
    by (rule diagnose_same_store) (rule kb_diagnose)
  moreover have "diagnose lower \<lparr> kb = store, working_memory = wm, inference_trace = tr, fired_rules = fr \<rparr>
        dev cat symptoms
     = diagnose lower \<lparr> kb = store, working_memory = [], inference_trace = [], fired_rules = [] \<rparr>
        dev cat symptoms"
    by (rule diagnose_same_store) simp
  ultimately show ?thesis by simp
qed

theorem diagnose_no_residual_state_witness:
  "fst (diagnose ascii_lower (snd (diagnose ascii_lower (new_engine heat_store) ''computer'' ''overheating''
                         [(''fan_noise'', PBool True)]))
          ''computer'' ''overheating'' [(''fan_noise'', PBool True)])
     = fst (diagnose ascii_lower (new_engine heat_store) ''computer'' ''overheating''
              [(''fan_noise'', PBool True)])"
  using diagnose_no_residual_state
          [of ascii_lower "new_engine heat_store" "''computer''" "''overheating''"
              "[(''fan_noise'', PBool True)]"]
  by blast

section \<open>Rules without a confidence\<close>

lemma noconf_ids:
  "\<forall>r\<in>set (candidate_rules ascii_lower (kb (session_start (new_engine noconf_store) ''computer''
                                    [(''fan_noise'', PBool True)]))
                (Some ''computer'') (Some ''overheating'')). r_id r \<noteq> None"
  by code_simp

lemma noconf_ranked:
  "map (r_id \<circ> m_rule)
     (find_matching_rules ascii_lower
        (kb (session_start (new_engine noconf_store) ''computer'' [(''fan_noise'', PBool True)]))
        (map_of (working_memory (session_start (new_engine noconf_store) ''computer''
                                   [(''fan_noise'', PBool True)])))
        (Some ''computer'') (Some ''overheating'') (3 / 10))
     = [Some ''A'', Some ''C'']"
  by code_simp

lemma noconf_run:
  "(case forward_chain ascii_lower
           (session_start (new_engine noconf_store) ''computer'' [(''fan_noise'', PBool True)])
           (Some ''computer'') (Some ''overheating'') (3 / 10) of
      (Inr ds, e') \<Rightarrow> map d_rule_id ds = [''A'', ''C'']
                       \<and> map d_confidence ds = [round_double (9 / 10), round_double (8 / 10)]
    | (Inl err, e') \<Rightarrow> False)"
  by code_simp

text \<open>
  At the rounding boundary: with 7 of 10 conditions matched, no confidence field and the
  threshold 0.56, the exact product is 56/100, the float product \<open>0.7 * 0.8\<close> is
  \<open>0.5599999999999999\<close>, below the double 0.56, and the rule does not fire.
\<close>

lemma under_ids:
  "\<forall>r\<in>set (candidate_rules ascii_lower
                (kb (session_start (new_engine (single_store (counting_rule 10 None)))
                       ''computer'' (numbered_facts 7)))
                (Some ''computer'') (Some ''overheating'')). r_id r \<noteq> None"
  by code_simp

lemma under_run:
  "score_of ascii_lower (counting_rule 10 None)
     (map_of (working_memory
        (session_start (new_engine (single_store (counting_rule 10 None)))
           ''computer'' (numbered_facts 7)))) = 7 / 10
   \<and> (7 / 10) * (8 / 10) = (56 / 100 :: rat)
   \<and> float_mul (7 / 10) (8 / 10) = 5044031582654955 / 9007199254740992
   \<and> float_mul (7 / 10) (8 / 10) < round_double (56 / 100)
   \<and> (case forward_chain ascii_lower
              (session_start (new_engine (single_store (counting_rule 10 None)))
                 ''computer'' (numbered_facts 7))
              (Some ''computer'') (Some ''overheating'') (56 / 100) of
         (Inr ds, e') \<Rightarrow> ds = [] \<and> fired_rules e' = []
       | (Inl err, e') \<Rightarrow> False)"
  by code_simp

text \<open>
  Claim C10.  For a rule without a confidence field, forward chaining uses 0.8 for the
  combined confidence while the ranker's sort key uses 0; so among ranked entries of
  equal match score such a rule comes after every rule with a positive authored
  confidence; and it still fires, with combined confidence the float product of its
  match score and 0.8, whenever its score and that product reach the threshold.  Every
  rule has an \<open>id\<close>.
\<close>

theorem missing_confidence_defaults:
  assumes "\<forall>r\<in>set (candidate_rules lower (kb e) dev cat). r_id r \<noteq> None"
  shows
   "(\<forall>m. r_confidence (m_rule m) = None \<longrightarrow>
          final_confidence m = float_mul (m_match_score m) (8 / 10)
          \<and> rank_key m = (m_match_score m, 0))
    \<and> (\<forall>i j c.
          i < length (find_matching_rules lower (kb e) (map_of (working_memory e)) dev cat thr)
          \<and> j < length (find_matching_rules lower (kb e) (map_of (working_memory e)) dev cat thr)
          \<and> r_confidence (m_rule (find_matching_rules lower (kb e) (map_of (working_memory e)) dev cat thr ! i))
              = None
          \<and> r_confidence (m_rule (find_matching_rules lower (kb e) (map_of (working_memory e)) dev cat thr ! j))
              = Some c
          \<and> 0 < c
          \<and> m_match_score (find_matching_rules lower (kb e) (map_of (working_memory e)) dev cat thr ! i)
              = m_match_score (find_matching_rules lower (kb e) (map_of (working_memory e)) dev cat thr ! j)
          \<longrightarrow> j < i)
    \<and> (\<exists>ds e'.
          forward_chain lower e dev cat thr = (Inr ds, e')
          \<and> (\<forall>r\<in>set (candidate_rules lower (kb e) dev cat).
                r_confidence r = None
                \<and> thr \<le> score_of lower r (map_of (working_memory e))
                \<and> round_double thr
                    \<le> float_mul (score_of lower r (map_of (working_memory e))) (8 / 10)
                \<longrightarrow> (\<exists>d\<in>set ds. r_id r = Some (d_rule_id d)
                        \<and> d_confidence d
                            = float_mul (score_of lower r (map_of (working_memory e))) (8 / 10))))"
proof -
  let ?F = "map_of (working_memory e)"
  let ?ms = "find_matching_rules lower (kb e) ?F dev cat thr"
  let ?fired = "filter (fires thr) ?ms"
  let ?ds = "map (diagnosis_of (working_memory e)) ?fired"
  have a: "final_confidence m = float_mul (m_match_score m) (8 / 10)
           \<and> rank_key m = (m_match_score m, 0)"
    if "r_confidence (m_rule m) = None" for m
    unfolding final_confidence_def rule_confidence_def rank_key_def
    using that by simp
  have s: "sorted_wrt ranks_before ?ms"
    by (simp add: find_matching_rules_eq sorted_sort_desc)
  have b: "j < i" if "i < length ?ms" "j < length ?ms"
      "r_confidence (m_rule (?ms ! i)) = None" "r_confidence (m_rule (?ms ! j)) = Some c"
      "0 < c" "m_match_score (?ms ! i) = m_match_score (?ms ! j)" for i j c
  proof (rule ccontr)
    assume "\<not> j < i"
    then consider "i < j" | "i = j" by linarith
    then show False
    proof cases
      case 1
      then have "ranks_before (?ms ! i) (?ms ! j)"
        using s that(2) by (simp add: sorted_wrt_iff_nth_less)
      then show False using that by (simp add: ranks_before_def rank_key_def)
    next
      case 2
      then show False using that by simp
    qed
  qed
  have run: "forward_chain lower e dev cat thr
     = (Inr ?ds,
        e\<lparr> inference_trace :=
              inference_trace e @ [Starting_forward_chaining] @ map fired_entry ?fired
              @ [Forward_chaining_complete (length ?fired)],
           fired_rules := fired_rules e @ map m_rule ?fired \<rparr>)"
    using forward_chain_result [OF assms, of thr] by (simp add: Let_def)
  have c: "\<exists>d\<in>set ?ds. r_id r = Some (d_rule_id d)
             \<and> d_confidence d = float_mul (score_of lower r ?F) (8 / 10)"
    if "r \<in> set (candidate_rules lower (kb e) dev cat)" "r_confidence r = None"
      "thr \<le> score_of lower r ?F"
      "round_double thr \<le> float_mul (score_of lower r ?F) (8 / 10)" for r
  proof -
    have cc: "combined_confidence lower r ?F = float_mul (score_of lower r ?F) (8 / 10)"
      unfolding combined_confidence_def rule_confidence_def using that(2) by simp
    have "match_of lower ?F r \<in> set ?ms"
      using that(1,3) by (simp add: set_find_matching_rules)
    moreover have "fires thr (match_of lower ?F r)"
      using that(4) by (simp add: fires_match_of cc)
    ultimately have mem: "diagnosis_of (working_memory e) (match_of lower ?F r) \<in> set ?ds"
      by simp
    from assms that(1) have "r_id r \<noteq> None" by blast
    then obtain n where n: "r_id r = Some n" by auto
    have "r_id r = Some (d_rule_id (diagnosis_of (working_memory e) (match_of lower ?F r)))"
      using n by (simp add: diagnosis_of_fields m_rule_match_of rule_id_of_def)
    moreover have "d_confidence (diagnosis_of (working_memory e) (match_of lower ?F r))
                     = float_mul (score_of lower r ?F) (8 / 10)"
      by (simp add: diagnosis_of_fields final_confidence_match_of cc)
    ultimately show ?thesis using mem by blast
  qed
  from a b c run show ?thesis by blast
qed

theorem missing_confidence_defaults_witness:
  "computer_rules noconf_store = [rule_c, rule_a]
   \<and> r_confidence rule_c = None
   \<and> map (r_id \<circ> m_rule)
       (find_matching_rules ascii_lower
          (kb (session_start (new_engine noconf_store) ''computer'' [(''fan_noise'', PBool True)]))
          (map_of (working_memory (session_start (new_engine noconf_store) ''computer''
                                     [(''fan_noise'', PBool True)])))
          (Some ''computer'') (Some ''overheating'') (3 / 10))
       = [Some ''A'', Some ''C'']
   \<and> (\<exists>ds e'.
         forward_chain ascii_lower
           (session_start (new_engine noconf_store) ''computer'' [(''fan_noise'', PBool True)])
           (Some ''computer'') (Some ''overheating'') (3 / 10) = (Inr ds, e')
         \<and> map d_rule_id ds = [''A'', ''C'']
         \<and> map d_confidence ds = [round_double (9 / 10), round_double (8 / 10)])
   \<and> (\<exists>ds e'.
         forward_chain ascii_lower
           (session_start (new_engine (single_store (counting_rule 10 None)))
              ''computer'' (numbered_facts 7))
           (Some ''computer'') (Some ''overheating'') (56 / 100) = (Inr ds, e')
         \<and> ds = [])"
proof -
  from missing_confidence_defaults [OF noconf_ids, of "3 / 10"]
  obtain ds e' where
    run: "forward_chain ascii_lower
           (session_start (new_engine noconf_store) ''computer'' [(''fan_noise'', PBool True)])
           (Some ''computer'') (Some ''overheating'') (3 / 10) = (Inr ds, e')"
    by blast
  have c: "computer_rules noconf_store = [rule_c, rule_a] \<and> r_confidence rule_c = None"
    by (simp add: noconf_store_def rule_c_def)
  from noconf_run run
  have "map d_rule_id ds = [''A'', ''C'']
        \<and> map d_confidence ds = [round_double (9 / 10), round_double (8 / 10)]"
    by simp
  with run have first:
    "\<exists>ds e'.
         forward_chain ascii_lower
           (session_start (new_engine noconf_store) ''computer'' [(''fan_noise'', PBool True)])
           (Some ''computer'') (Some ''overheating'') (3 / 10) = (Inr ds, e')
         \<and> map d_rule_id ds = [''A'', ''C'']
         \<and> map d_confidence ds = [round_double (9 / 10), round_double (8 / 10)]"
    by simp
  from missing_confidence_defaults [OF under_ids, of "56 / 100"]
  obtain ds2 e2 where
    run2: "forward_chain ascii_lower
           (session_start (new_engine (single_store (counting_rule 10 None)))
              ''computer'' (numbered_facts 7))
           (Some ''computer'') (Some ''overheating'') (56 / 100) = (Inr ds2, e2)"
    by blast
  from under_run run2 have "ds2 = []" by simp
  with run2 have second:
    "\<exists>ds e'.
         forward_chain ascii_lower
           (session_start (new_engine (single_store (counting_rule 10 None)))
              ''computer'' (numbered_facts 7))
           (Some ''computer'') (Some ''overheating'') (56 / 100) = (Inr ds, e')
         \<and> ds = []"
    by simp
  from c noconf_ranked first second show ?thesis by (intro conjI) simp_all
qed

section \<open>Backward chaining\<close>

lemma check_conditions_eq:
  "check_conditions lower cs wm rf sat =
     (rf @ map (missing_fact wm) (filter (\<lambda>c. \<not> condition_satisfied lower wm c) cs),
      sat \<and> list_all (condition_satisfied lower wm) cs)"
  by (induction cs arbitrary: rf sat)
     (auto simp: condition_satisfied_def missing_fact_def split: option.splits)

lemma check_conditions_rule:
  "check_conditions lower (get_conditions r) wm [] True = (missing_facts lower wm r, all_satisfied lower wm r)"
  by (simp add: check_conditions_eq missing_facts_def all_satisfied_def)

lemma prove_loop_result:
  assumes "\<forall>r\<in>set rules. r_id r \<noteq> None"
  shows "prove_loop lower rules e previous =
     (case find (all_satisfied lower (map_of (working_memory e))) rules of
        None \<Rightarrow>
          (Inr (False, if rules = [] then previous
                       else missing_facts lower (map_of (working_memory e)) (last rules)),
           e\<lparr> inference_trace :=
                 inference_trace e @ map (needs_entry lower (map_of (working_memory e))) rules \<rparr>)
      | Some r \<Rightarrow>
          (Inr (True, []),
           e\<lparr> inference_trace :=
                 inference_trace e
                 @ map (needs_entry lower (map_of (working_memory e)))
                     (takeWhile (\<lambda>r. \<not> all_satisfied lower (map_of (working_memory e)) r) rules)
                 @ [Hypothesis_proven (rule_id_of r)] \<rparr>))"
  using assms
proof (induction rules arbitrary: e previous)
  case Nil
  then show ?case by simp
next
  case (Cons r rules)
  then obtain i where i: "r_id r = Some i" by auto
  from Cons.prems have rest: "\<forall>r\<in>set rules. r_id r \<noteq> None" by simp
  show ?case
  proof (cases "all_satisfied lower (map_of (working_memory e)) r")
    case True
    then show ?thesis
      using i by (simp add: check_conditions_rule rule_id_of_def)
  next
    case False
    then show ?thesis
      using i Cons.IH [OF rest]
      by (simp add: check_conditions_rule rule_id_of_def needs_entry_def
               split: option.splits)
  qed
qed

lemma all_satisfied_iff:
  "all_satisfied lower wm r \<longleftrightarrow>
     (\<forall>c\<in>set (get_conditions r). \<exists>actual. wm (fst c) = Some actual \<and> values_match lower actual (snd c))"
  by (auto simp: all_satisfied_def condition_satisfied_def list_all_iff split: option.splits)

lemma supporting_rules_eq:
  "supporting_rules lower store hypothesis device_type
     = filter (\<lambda>r. sublist (lower hypothesis)
                     (lower (case r_cause r of None \<Rightarrow> [] | Some c \<Rightarrow> c)))
         (case device_type of
            Some d \<Rightarrow> if d \<noteq> [] then get_rules_by_device lower store d else all_rules store
          | None \<Rightarrow> all_rules store)"
proof -
  have "supports lower hypothesis
          = (\<lambda>r. sublist (lower hypothesis)
                   (lower (case r_cause r of None \<Rightarrow> [] | Some c \<Rightarrow> c)))"
    by (simp add: fun_eq_iff supports_def)
  then show ?thesis
    by (simp add: supporting_rules_def Let_def)
qed

text \<open>
  Claim C6.  The supporting rules are the rules in scope whose cause, lowered, contains
  the lowered hypothesis as a substring.  \<open>backward_chain\<close> returns \<open>(True, [])\<close> if and
  only if some supporting rule has every condition satisfied by a fact of working
  memory, and the trace shows that it stops at the first such rule; with no supporting
  rule it returns \<open>(False, [])\<close>; otherwise it returns \<open>False\<close> with the missing-facts list
  of the last supporting rule.  Every supporting rule has an \<open>id\<close>.
\<close>

theorem backward_chain_result:
  assumes "\<forall>r\<in>set (supporting_rules lower (kb e) hypothesis device_type). r_id r \<noteq> None"
  shows
    "supporting_rules lower (kb e) hypothesis device_type
       = filter (\<lambda>r. sublist (lower hypothesis)
                       (lower (case r_cause r of None \<Rightarrow> [] | Some c \<Rightarrow> c)))
           (case device_type of
              Some d \<Rightarrow> if d \<noteq> [] then get_rules_by_device lower (kb e) d
                        else all_rules (kb e)
            | None \<Rightarrow> all_rules (kb e))
     \<and> (\<forall>r. all_satisfied lower (map_of (working_memory e)) r \<longleftrightarrow>
              (\<forall>c\<in>set (get_conditions r).
                 \<exists>actual. map_of (working_memory e) (fst c) = Some actual
                          \<and> values_match lower actual (snd c)))
     \<and> fst (backward_chain lower e hypothesis device_type)
       = Inr (if \<exists>r\<in>set (supporting_rules lower (kb e) hypothesis device_type).
                   all_satisfied lower (map_of (working_memory e)) r
              then (True, [])
              else if supporting_rules lower (kb e) hypothesis device_type = [] then (False, [])
              else (False, missing_facts lower (map_of (working_memory e))
                             (last (supporting_rules lower (kb e) hypothesis device_type))))
     \<and> inference_trace (snd (backward_chain lower e hypothesis device_type))
       = inference_trace e @ [Starting_backward_chaining hypothesis]
         @ (if supporting_rules lower (kb e) hypothesis device_type = []
            then [No_rules_found hypothesis]
            else map (needs_entry lower (map_of (working_memory e)))
                   (takeWhile (\<lambda>r. \<not> all_satisfied lower (map_of (working_memory e)) r)
                      (supporting_rules lower (kb e) hypothesis device_type))
                 @ (case find (all_satisfied lower (map_of (working_memory e)))
                           (supporting_rules lower (kb e) hypothesis device_type) of
                      Some r \<Rightarrow> [Hypothesis_proven (rule_id_of r)]
                    | None \<Rightarrow> []))"
proof -
  let ?sup = "supporting_rules lower (kb e) hypothesis device_type"
  let ?wm = "map_of (working_memory e)"
  let ?e1 = "e\<lparr> inference_trace := inference_trace e @ [Starting_backward_chaining hypothesis] \<rparr>"
  have main:
    "fst (backward_chain lower e hypothesis device_type)
       = Inr (if \<exists>r\<in>set ?sup. all_satisfied lower ?wm r then (True, [])
              else if ?sup = [] then (False, [])
              else (False, missing_facts lower ?wm (last ?sup)))
     \<and> inference_trace (snd (backward_chain lower e hypothesis device_type))
       = inference_trace e @ [Starting_backward_chaining hypothesis]
         @ (if ?sup = [] then [No_rules_found hypothesis]
            else map (needs_entry lower ?wm)
                   (takeWhile (\<lambda>r. \<not> all_satisfied lower ?wm r) ?sup)
                 @ (case find (all_satisfied lower ?wm) ?sup of
                      Some r \<Rightarrow> [Hypothesis_proven (rule_id_of r)]
                    | None \<Rightarrow> []))"
  proof (cases "?sup = []")
    case True
    then show ?thesis by (simp add: backward_chain_def Let_def)
  next
    case False
    have bc: "backward_chain lower e hypothesis device_type = prove_loop lower ?sup ?e1 []"
      using False by (simp add: backward_chain_def Let_def)
    show ?thesis
    proof (cases "find (all_satisfied lower ?wm) ?sup")
      case None
      then have no: "\<not> (\<exists>r\<in>set ?sup. all_satisfied lower ?wm r)"
        by (simp add: find_None_iff)
      then have tw: "takeWhile (\<lambda>r. \<not> all_satisfied lower ?wm r) ?sup = ?sup"
        by (simp add: takeWhile_eq_all_conv)
      show ?thesis
        unfolding bc prove_loop_result [OF assms]
        using None no False by (simp add: tw)
    next
      case (Some r)
      then have yes: "\<exists>r\<in>set ?sup. all_satisfied lower ?wm r"
        by (auto simp: find_Some_iff)
      show ?thesis
        unfolding bc prove_loop_result [OF assms]
        using Some yes False by simp
    qed
  qed
  have sup: "?sup
       = filter (\<lambda>r. sublist (lower hypothesis)
                       (lower (case r_cause r of None \<Rightarrow> [] | Some c \<Rightarrow> c)))
           (case device_type of
              Some d \<Rightarrow> if d \<noteq> [] then get_rules_by_device lower (kb e) d
                        else all_rules (kb e)
            | None \<Rightarrow> all_rules (kb e))"
    by (rule supporting_rules_eq)
  have sat: "\<forall>r. all_satisfied lower ?wm r \<longleftrightarrow>
              (\<forall>c\<in>set (get_conditions r).
                 \<exists>actual. ?wm (fst c) = Some actual \<and> values_match lower actual (snd c))"
    by (simp add: all_satisfied_iff)
  from sup sat main show ?thesis by (intro conjI) simp_all
qed

text \<open>
  The store holds, in order, three rules whose cause names dust (the first and the
  third need facts that are unknown, the second is satisfied) and one that does not
  (satisfied as well).  The hypothesis \<open>DUST\<close> is proven by the second supporting rule,
  the third is never examined; the hypothesis \<open>virus\<close> is in no cause and is not proven
  although two rules are satisfied; and on the engine where no supporting rule is
  satisfied the result holds the missing fact of the last supporting rule alone.
\<close>

lemma chain_support:
  "supporting_rules ascii_lower (kb noisy_engine) ''DUST'' (Some ''computer'')
     = [heat_rule, fan_rule, filter_rule]
   \<and> supporting_rules ascii_lower (kb noisy_engine) ''virus'' (Some ''computer'') = []
   \<and> supporting_rules ascii_lower (kb quiet_engine) ''DUST'' (Some ''computer'')
     = [heat_rule, fan_rule, filter_rule]"
  by code_simp

lemma chain_satisfied:
  "\<not> all_satisfied ascii_lower (map_of (working_memory noisy_engine)) heat_rule
   \<and> all_satisfied ascii_lower (map_of (working_memory noisy_engine)) paste_rule
   \<and> all_satisfied ascii_lower (map_of (working_memory noisy_engine)) fan_rule
   \<and> \<not> all_satisfied ascii_lower (map_of (working_memory noisy_engine)) filter_rule
   \<and> \<not> all_satisfied ascii_lower (map_of (working_memory quiet_engine)) heat_rule
   \<and> \<not> all_satisfied ascii_lower (map_of (working_memory quiet_engine)) fan_rule
   \<and> \<not> all_satisfied ascii_lower (map_of (working_memory quiet_engine)) filter_rule"
  by code_simp

lemma chain_missing:
  "missing_facts ascii_lower (map_of (working_memory noisy_engine)) heat_rule
     = [''Need to know: hot_surface'']
   \<and> missing_facts ascii_lower (map_of (working_memory quiet_engine)) heat_rule
     = [''fan_noise should be True'', ''Need to know: hot_surface'']
   \<and> missing_facts ascii_lower (map_of (working_memory quiet_engine)) fan_rule
     = [''fan_noise should be True'']
   \<and> missing_facts ascii_lower (map_of (working_memory quiet_engine)) filter_rule
     = [''Need to know: filter_dirty'']"
  by code_simp

lemma chain_ids:
  "r_id heat_rule = Some ''COMP_HEAT_001'' \<and> r_id fan_rule = Some ''COMP_HEAT_003''
   \<and> r_id filter_rule = Some ''COMP_HEAT_004''"
  by (simp add: heat_rule_def fan_rule_def filter_rule_def)

lemma chain_distinct:
  "heat_rule \<noteq> fan_rule \<and> heat_rule \<noteq> filter_rule \<and> fan_rule \<noteq> filter_rule"
  by (simp add: heat_rule_def fan_rule_def filter_rule_def)

theorem backward_chain_result_witness:
  "supporting_rules ascii_lower (kb noisy_engine) ''DUST'' (Some ''computer'')
     = [heat_rule, fan_rule, filter_rule]
   \<and> fst (backward_chain ascii_lower noisy_engine ''DUST'' (Some ''computer'')) = Inr (True, [])
   \<and> inference_trace (snd (backward_chain ascii_lower noisy_engine ''DUST'' (Some ''computer'')))
       = inference_trace noisy_engine
         @ [Starting_backward_chaining ''DUST'',
            Rule_needs ''COMP_HEAT_001'' ''Need to know: hot_surface'',
            Hypothesis_proven ''COMP_HEAT_003'']
   \<and> all_satisfied ascii_lower (map_of (working_memory noisy_engine)) paste_rule
   \<and> supporting_rules ascii_lower (kb noisy_engine) ''virus'' (Some ''computer'') = []
   \<and> fst (backward_chain ascii_lower noisy_engine ''virus'' (Some ''computer'')) = Inr (False, [])
   \<and> inference_trace (snd (backward_chain ascii_lower noisy_engine ''virus'' (Some ''computer'')))
       = inference_trace noisy_engine
         @ [Starting_backward_chaining ''virus'', No_rules_found ''virus'']
   \<and> fst (backward_chain ascii_lower quiet_engine ''DUST'' (Some ''computer''))
       = Inr (False, [''Need to know: filter_dirty''])
   \<and> inference_trace (snd (backward_chain ascii_lower quiet_engine ''DUST'' (Some ''computer'')))
       = inference_trace quiet_engine
         @ [Starting_backward_chaining ''DUST'',
            Rule_needs ''COMP_HEAT_001'' ''fan_noise should be True, Need to know: hot_surface'',
            Rule_needs ''COMP_HEAT_003'' ''fan_noise should be True'',
            Rule_needs ''COMP_HEAT_004'' ''Need to know: filter_dirty'']"
proof -
  have a: "\<forall>r\<in>set (supporting_rules ascii_lower (kb noisy_engine) ''DUST'' (Some ''computer'')).
             r_id r \<noteq> None"
    by (simp add: chain_support chain_ids)
  have b: "\<forall>r\<in>set (supporting_rules ascii_lower (kb noisy_engine) ''virus'' (Some ''computer'')).
             r_id r \<noteq> None"
    by (simp add: chain_support)
  have c: "\<forall>r\<in>set (supporting_rules ascii_lower (kb quiet_engine) ''DUST'' (Some ''computer'')).
             r_id r \<noteq> None"
    by (simp add: chain_support chain_ids)
  note ra = backward_chain_result [OF a, THEN conjunct2, THEN conjunct2]
  note rb = backward_chain_result [OF b, THEN conjunct2, THEN conjunct2]
  note rc = backward_chain_result [OF c, THEN conjunct2, THEN conjunct2]
  from ra rb rc show ?thesis
    by (simp add: chain_support chain_satisfied chain_missing chain_ids chain_distinct
          needs_entry_def rule_id_of_def)
qed

end
